theory Spec2Isabelle
  imports Main "HOL-Library.Sublist" "HOL-Library.AList" "HOL-Library.Log_Nat"
begin

section \<open>JavaScript values\<close>

text \<open>
  The values that flow through \<^verbatim>\<open>js/script.js\<close>: what \<^verbatim>\<open>JSON.parse\<close> returns
  (null, booleans, numbers, strings, arrays, objects) and \<^verbatim>\<open>undefined\<close>, which a read of
  a missing property gives. Numbers are the integers: every number of this program's data
  is a counter or a millisecond timestamp. A number of the program is a double, so \<open>Num n\<close>
  stands for a value of the program when \<open>n\<close> is a double; every integer up to \<open>2 ^ 53\<close>
  in size is one. An object is the list of its own properties in insertion order.
\<close>

datatype js =
    Undefined
  | Null
  | Bool bool
  | Num int
  | Str string
  | Arr "js list"
  | Obj "(string \<times> js) list"

text \<open>The integers up to \<open>2 ^ 53\<close> in size: all of them are doubles, and printed digit by digit.\<close>

definition exact_integer :: "int \<Rightarrow> bool" where
  "exact_integer n = (\<bar>n\<bar> \<le> 2 ^ 53)"

text \<open>The exceptions that the code can meet; each \<^verbatim>\<open>catch\<close> of the source takes all of them.\<close>

datatype exn =
    TypeError
  | SyntaxError
  | HttpError nat
  | NetworkError
  | QuotaExceededError
  | SecurityError

text \<open>Truthiness, as \<^verbatim>\<open>if (x)\<close>, \<^verbatim>\<open>x || y\<close> and \<^verbatim>\<open>x ? a : b\<close> test it.\<close>

fun truthy :: "js \<Rightarrow> bool" where
  "truthy Undefined = False"
| "truthy Null = False"
| "truthy (Bool b) = b"
| "truthy (Num n) = (n \<noteq> 0)"
| "truthy (Str s) = (s \<noteq> [])"
| "truthy (Arr xs) = True"
| "truthy (Obj fs) = True"

text \<open>
  A property read \<^verbatim>\<open>x.name\<close>. On \<^verbatim>\<open>null\<close> and \<^verbatim>\<open>undefined\<close> it throws a TypeError;
  on an object it gives the own property or \<^verbatim>\<open>undefined\<close>; arrays and strings have
  \<^verbatim>\<open>length\<close>; the other property names that the program reads from data
  (\<^verbatim>\<open>timestamp\<close>, \<^verbatim>\<open>data\<close>, \<^verbatim>\<open>sha\<close>, \<^verbatim>\<open>assets\<close>, ...) are on no prototype.
\<close>

fun get_prop :: "js \<Rightarrow> string \<Rightarrow> exn + js" where
  "get_prop Undefined name = Inl TypeError"
| "get_prop Null name = Inl TypeError"
| "get_prop (Obj fs) name = Inr (case map_of fs name of None \<Rightarrow> Undefined | Some v \<Rightarrow> v)"
| "get_prop (Arr xs) name = Inr (if name = ''length'' then Num (int (length xs)) else Undefined)"
| "get_prop (Str s) name = Inr (if name = ''length'' then Num (int (length s)) else Undefined)"
| "get_prop (Bool b) name = Inr Undefined"
| "get_prop (Num n) name = Inr Undefined"

text \<open>
  What \<^verbatim>\<open>JSON.parse(JSON.stringify(v))\<close> is: \<^verbatim>\<open>JSON.stringify\<close> leaves out the
  properties whose value is \<^verbatim>\<open>undefined\<close> and writes \<^verbatim>\<open>null\<close> for an
  \<^verbatim>\<open>undefined\<close> array element; everything else comes back as it went in.
\<close>

fun JSON_roundtrip :: "js \<Rightarrow> js" where
  "JSON_roundtrip (Arr xs) =
     Arr (map (\<lambda>v. if v = Undefined then Null else JSON_roundtrip v) xs)"
| "JSON_roundtrip (Obj fs) =
     Obj (map (\<lambda>(k, v). (k, JSON_roundtrip v)) (filter (\<lambda>(k, v). v \<noteq> Undefined) fs))"
| "JSON_roundtrip v = v"

text \<open>A JSON value is a value with no \<^verbatim>\<open>undefined\<close> inside.\<close>

fun is_json :: "js \<Rightarrow> bool" where
  "is_json Undefined = False"
| "is_json (Arr xs) = list_all is_json xs"
| "is_json (Obj fs) = list_all (\<lambda>(k, v). is_json v) fs"
| "is_json v = True"

text \<open>
  The places where the source leans on the engine for something this theory does not
  compute: the numeric coercion of a string, an array or an object (which needs the
  engine's number parser and may throw on an object), the printing of a number beyond
  \<open>2 ^ 53\<close> (where the digits are those of the double, in exponent notation from 1e21
  on), a sum that overflows, floating-point percentages, the parsing of dates, and the
  HTML text of the template literals. Each is a field of the
  record below, and every definition that needs one takes the record as its first argument.
\<close>

record engine =
  elapsed_exceeds :: "int \<Rightarrow> js \<Rightarrow> int \<Rightarrow> exn + bool"
    \<comment> \<open>\<^verbatim>\<open>now - v > d\<close> for a string, array or object \<^verbatim>\<open>v\<close>\<close>
  plus_coerced :: "js \<Rightarrow> js \<Rightarrow> exn + js"
    \<comment> \<open>\<^verbatim>\<open>a + b\<close> when \<^verbatim>\<open>a\<close> or \<^verbatim>\<open>b\<close> is not a number, or the sum overflows to
        \<^verbatim>\<open>Infinity\<close>\<close>
  formatNumber_coerced :: "js \<Rightarrow> exn + string"
    \<comment> \<open>\<^verbatim>\<open>Utils.formatNumber(v)\<close> for a string, array or object \<^verbatim>\<open>v\<close>, or a number
        beyond \<open>2 ^ 53\<close>\<close>
  toLocaleString_other :: "js \<Rightarrow> exn + string"
    \<comment> \<open>\<^verbatim>\<open>v.toLocaleString('en-US')\<close> for an array or object \<^verbatim>\<open>v\<close>, or a number
        beyond \<open>2 ^ 53\<close>\<close>
  toString_other :: "js \<Rightarrow> exn + string"
    \<comment> \<open>\<^verbatim>\<open>v.toString()\<close> for an array or object \<^verbatim>\<open>v\<close>, or a number beyond \<open>2 ^ 53\<close>\<close>
  language_percentages :: "js \<Rightarrow> exn + js"
    \<comment> \<open>the sorted \<^verbatim>\<open>{name, percent}\<close> list of \<^verbatim>\<open>loadLanguages\<close>, from a payload that is
        neither \<^verbatim>\<open>null\<close> nor \<^verbatim>\<open>undefined\<close>\<close>
  commits_html :: "int \<Rightarrow> js list \<Rightarrow> exn + string"
  contributors_html :: "js list \<Rightarrow> exn + string"
  languages_bar_html :: "js list \<Rightarrow> exn + string"
  languages_legend_html :: "js list \<Rightarrow> exn + string"
  release_html :: "int \<Rightarrow> js \<Rightarrow> exn + string"

section \<open>Configuration\<close>

definition CACHE_PREFIX :: string where
  "CACHE_PREFIX = ''die_''"

definition CACHE_DURATION :: int where
  "CACHE_DURATION = 30 * 60 * 1000"

definition RETENTION :: int where
  "RETENTION = 24 * 60 * 60 * 1000"

definition CONFIG_DEBUG :: bool where
  "CONFIG_DEBUG = False"

section \<open>localStorage\<close>

text \<open>
  A stored string is kept as what \<^verbatim>\<open>JSON.parse\<close> makes of it: \<open>Garbage\<close> when it throws
  (the empty string is one such), \<open>Json v\<close> when it returns \<open>v\<close>. The store is either
  \<open>Denied\<close> (every access throws, as in a browser that blocks storage) or a list of
  entries in key order with a flag saying that the quota is used up, in which case
  \<^verbatim>\<open>setItem\<close> throws.
\<close>

datatype item = Garbage | Json js

datatype local_storage =
    Denied
  | Storage (entries: "(string \<times> item) list") (full: bool)

fun getItem :: "local_storage \<Rightarrow> string \<Rightarrow> exn + item option" where
  "getItem Denied k = Inl SecurityError"
| "getItem (Storage es fl) k = Inr (map_of es k)"

fun setItem :: "local_storage \<Rightarrow> string \<Rightarrow> item \<Rightarrow> exn + local_storage" where
  "setItem Denied k v = Inl SecurityError"
| "setItem (Storage es fl) k v =
     (if fl then Inl QuotaExceededError else Inr (Storage (AList.update k v es) fl))"

fun removeItem :: "local_storage \<Rightarrow> string \<Rightarrow> exn + local_storage" where
  "removeItem Denied k = Inl SecurityError"
| "removeItem (Storage es fl) k = Inr (Storage (AList.delete k es) fl)"

fun Object_keys :: "local_storage \<Rightarrow> exn + string list" where
  "Object_keys Denied = Inl SecurityError"
| "Object_keys (Storage es fl) = Inr (map fst es)"

text \<open>\<^verbatim>\<open>JSON.parse\<close> of what \<^verbatim>\<open>getItem\<close> returned; of \<^verbatim>\<open>null\<close> it is \<^verbatim>\<open>null\<close>.\<close>

fun JSON_parse :: "item option \<Rightarrow> exn + js" where
  "JSON_parse None = Inr Null"
| "JSON_parse (Some Garbage) = Inl SyntaxError"
| "JSON_parse (Some (Json v)) = Inr v"

definition JSON_stringify :: "js \<Rightarrow> item" where
  "JSON_stringify v = Json (JSON_roundtrip v)"

text \<open>
  The test \<^verbatim>\<open>Date.now() - parsed.timestamp > d\<close>. A number subtracts; \<^verbatim>\<open>undefined\<close>
  makes the difference NaN, which is greater than nothing; \<^verbatim>\<open>null\<close> and \<^verbatim>\<open>false\<close>
  count as 0 and \<^verbatim>\<open>true\<close> as 1; for the rest the engine coerces.
\<close>

fun older_than :: "engine \<Rightarrow> int \<Rightarrow> js \<Rightarrow> int \<Rightarrow> exn + bool" where
  "older_than eng now (Num t) d = Inr (now - t > d)"
| "older_than eng now Undefined d = Inr False"
| "older_than eng now Null d = Inr (now > d)"
| "older_than eng now (Bool b) d = Inr (now - (if b then 1 else 0) > d)"
| "older_than eng now v d = elapsed_exceeds eng now v d"

section \<open>The page\<close>

text \<open>
  Everything the script reads and writes: the store, the console, the elements that
  \<^verbatim>\<open>document.getElementById\<close> finds, the callbacks waiting in \<^verbatim>\<open>setTimeout\<close>, and the
  six fields of the one \<^verbatim>\<open>GitHubAPI\<close> object.
\<close>

record element =
  textContent :: string
  innerHTML :: string
  transition :: string
  transform :: string
  opacity :: string
  display :: string

record page =
  storage :: local_storage
  console :: "string list"
  elements :: "string \<rightharpoonup> element"
  timers :: "(string \<times> string) list"
  repoStats :: js
  totalDownloads :: js
  commits :: js
  contributors :: js
  languages :: js
  latestRelease :: js

definition Utils_log :: "string \<Rightarrow> page \<Rightarrow> page" where
  "Utils_log msg p = (if CONFIG_DEBUG then p\<lparr>console := console p @ [msg]\<rparr> else p)"

section \<open>CacheManager\<close>

definition CacheManager_get :: "engine \<Rightarrow> int \<Rightarrow> string \<Rightarrow> page \<Rightarrow> js \<times> page" where
  "CacheManager_get eng now key p =
     (case getItem (storage p) (CACHE_PREFIX @ key) of
        Inl e \<Rightarrow> (Null, p)
      | Inr None \<Rightarrow> (Null, p)
      | Inr (Some raw) \<Rightarrow>
          (case JSON_parse (Some raw) of
             Inl e \<Rightarrow> (Null, p)
           | Inr parsed \<Rightarrow>
               (case get_prop parsed ''timestamp'' of
                  Inl e \<Rightarrow> (Null, p)
                | Inr ts \<Rightarrow>
                    (case older_than eng now ts CACHE_DURATION of
                       Inl e \<Rightarrow> (Null, p)
                     | Inr True \<Rightarrow>
                         (case removeItem (storage p) (CACHE_PREFIX @ key) of
                            Inl e \<Rightarrow> (Null, p)
                          | Inr st \<Rightarrow> (Null, p\<lparr>storage := st\<rparr>))
                     | Inr False \<Rightarrow>
                         (case get_prop parsed ''data'' of
                            Inl e \<Rightarrow> (Null, p)
                          | Inr d \<Rightarrow> (d, p))))))"

definition CacheManager_set :: "int \<Rightarrow> string \<Rightarrow> js \<Rightarrow> page \<Rightarrow> page" where
  "CacheManager_set now key data p =
     (case setItem (storage p) (CACHE_PREFIX @ key)
             (JSON_stringify (Obj [(''data'', data), (''timestamp'', Num now)])) of
        Inl e \<Rightarrow> Utils_log ''Cache write failed for'' p
      | Inr st \<Rightarrow> p\<lparr>storage := st\<rparr>)"

text \<open>The body of the \<^verbatim>\<open>forEach\<close> callback of \<^verbatim>\<open>clearOld\<close>, with its own \<^verbatim>\<open>try\<close>.\<close>

definition clearOld_key :: "engine \<Rightarrow> int \<Rightarrow> string \<Rightarrow> page \<Rightarrow> page" where
  "clearOld_key eng now key p =
     (if prefix CACHE_PREFIX key then
        (case getItem (storage p) key of
           Inl e \<Rightarrow> p
         | Inr raw \<Rightarrow>
             (case JSON_parse raw of
                Inl e \<Rightarrow> p
              | Inr parsed \<Rightarrow>
                  (case get_prop parsed ''timestamp'' of
                     Inl e \<Rightarrow> p
                   | Inr ts \<Rightarrow>
                       (case older_than eng now ts RETENTION of
                          Inl e \<Rightarrow> p
                        | Inr True \<Rightarrow>
                            (case removeItem (storage p) key of
                               Inl e \<Rightarrow> p
                             | Inr st \<Rightarrow> p\<lparr>storage := st\<rparr>)
                        | Inr False \<Rightarrow> p))))
      else p)"

definition CacheManager_clearOld :: "engine \<Rightarrow> int \<Rightarrow> page \<Rightarrow> page" where
  "CacheManager_clearOld eng now p =
     (case Object_keys (storage p) of
        Inl e \<Rightarrow> p
      | Inr keys \<Rightarrow> fold (clearOld_key eng now) keys p)"

section \<open>Utils\<close>

text \<open>
  Decimal digits of a natural number, as \<^verbatim>\<open>toString\<close>, \<^verbatim>\<open>toFixed\<close> and
  \<^verbatim>\<open>toLocaleString\<close> print a number up to \<open>2 ^ 53\<close>; the printing functions below are
  used for such numbers only.
\<close>

definition digit :: "nat \<Rightarrow> char" where
  "digit d = ''0123456789'' ! d"

fun decimal :: "nat \<Rightarrow> string" where
  "decimal n = (if n < 10 then [digit n] else decimal (n div 10) @ [digit (n mod 10)])"

declare decimal.simps [simp del]

definition Number_toString :: "int \<Rightarrow> string" where
  "Number_toString n = (if n < 0 then ''-'' @ decimal (nat (- n)) else decimal (nat n))"

text \<open>
  The quotient \<^verbatim>\<open>n / d\<close> of two positive integers with \<open>d \<le> n\<close>, as the double that
  the division gives: the 53-bit significand is the exact quotient rounded to nearest,
  ties to even. The result is the pair (numerator, denominator) of that double.
\<close>

definition round_half_even :: "int \<Rightarrow> int \<Rightarrow> int" where
  "round_half_even a b =
     (let q = a div b; r = a mod b
      in if 2 * r < b then q else if 2 * r > b then q + 1 else if even q then q else q + 1)"

definition Number_div :: "int \<Rightarrow> int \<Rightarrow> int \<times> int" where
  "Number_div n d =
     (let e = bitlen (n div d) - 1
      in if e \<le> 52 then (round_half_even (n * 2 ^ nat (52 - e)) d, 2 ^ nat (52 - e))
         else (round_half_even n (d * 2 ^ nat (e - 52)) * 2 ^ nat (e - 52), 1))"

text \<open>
  The double nearest to an integer, ties to even: the integer itself up to \<open>2 ^ 53\<close>, and
  beyond that the integer rounded to 53 significant bits.
\<close>

definition to_double :: "int \<Rightarrow> int" where
  "to_double x =
     (if exact_integer x then x
      else
        let e = nat (bitlen \<bar>x\<bar> - 53)
        in sgn x * round_half_even \<bar>x\<bar> (2 ^ e) * 2 ^ e)"

text \<open>
  \<^verbatim>\<open>x.toFixed(1)\<close> for a double \<open>x = a / b\<close>, \<open>0 \<le> x < 10 ^ 21\<close>: the integer \<open>N\<close> with
  \<open>N / 10\<close> nearest to \<open>x\<close>, the larger one on a tie, printed with a point before its last
  digit. (The quotients of \<^verbatim>\<open>formatNumber\<close> for a number up to \<open>2 ^ 53\<close> are below
  \<open>10 ^ 13\<close>.)
\<close>

definition toFixed1 :: "int \<times> int \<Rightarrow> string" where
  "toFixed1 x =
     (let N = nat ((20 * fst x + snd x) div (2 * snd x))
      in decimal (N div 10) @ ''.'' @ decimal (N mod 10))"

text \<open>\<^verbatim>\<open>s.replace(/\.0$/, '')\<close>\<close>

definition strip_point_zero :: "string \<Rightarrow> string" where
  "strip_point_zero s =
     (case rev s of
        c0 # c1 # r \<Rightarrow> if c0 = CHR ''0'' \<and> c1 = CHR ''.'' then rev r else s
      | _ \<Rightarrow> s)"

definition formatNumber_num :: "int \<Rightarrow> string" where
  "formatNumber_num num =
     (if num \<ge> 1000000 then strip_point_zero (toFixed1 (Number_div num 1000000)) @ ''M''
      else if num \<ge> 1000 then strip_point_zero (toFixed1 (Number_div num 1000)) @ ''k''
      else Number_toString num)"

text \<open>
  \<^verbatim>\<open>Utils.formatNumber\<close> on any value. \<^verbatim>\<open>undefined\<close> and \<^verbatim>\<open>null\<close> fail both
  comparisons and then throw at \<^verbatim>\<open>num.toString()\<close>; a boolean fails both comparisons
  (it counts as 0 or 1) and prints its name; the digits of a number beyond \<open>2 ^ 53\<close> are
  the engine's.
\<close>

fun formatNumber :: "engine \<Rightarrow> js \<Rightarrow> exn + string" where
  "formatNumber eng (Num n) =
     (if exact_integer n then Inr (formatNumber_num n) else formatNumber_coerced eng (Num n))"
| "formatNumber eng Undefined = Inl TypeError"
| "formatNumber eng Null = Inl TypeError"
| "formatNumber eng (Bool b) = Inr (if b then ''true'' else ''false'')"
| "formatNumber eng v = formatNumber_coerced eng v"

text \<open>\<^verbatim>\<open>num.toLocaleString('en-US')\<close>: an integer in groups of three digits.\<close>

definition pad3 :: "nat \<Rightarrow> string" where
  "pad3 n = [digit (n div 100), digit (n div 10 mod 10), digit (n mod 10)]"

fun grouped :: "nat \<Rightarrow> string" where
  "grouped n = (if n < 1000 then decimal n else grouped (n div 1000) @ '','' @ pad3 (n mod 1000))"

declare grouped.simps [simp del]

definition toLocaleString_num :: "int \<Rightarrow> string" where
  "toLocaleString_num n = (if n < 0 then ''-'' @ grouped (nat (- n)) else grouped (nat n))"

fun formatNumberFull :: "engine \<Rightarrow> js \<Rightarrow> exn + string" where
  "formatNumberFull eng (Num n) =
     (if exact_integer n then Inr (toLocaleString_num n) else toLocaleString_other eng (Num n))"
| "formatNumberFull eng Undefined = Inl TypeError"
| "formatNumberFull eng Null = Inl TypeError"
| "formatNumberFull eng (Bool b) = Inr (if b then ''true'' else ''false'')"
| "formatNumberFull eng (Str s) = Inr s"
| "formatNumberFull eng v = toLocaleString_other eng v"

text \<open>\<^verbatim>\<open>v.toString()\<close>\<close>

fun toString :: "engine \<Rightarrow> js \<Rightarrow> exn + string" where
  "toString eng (Num n) =
     (if exact_integer n then Inr (Number_toString n) else toString_other eng (Num n))"
| "toString eng Undefined = Inl TypeError"
| "toString eng Null = Inl TypeError"
| "toString eng (Bool b) = Inr (if b then ''true'' else ''false'')"
| "toString eng (Str s) = Inr s"
| "toString eng v = toString_other eng v"

section \<open>Outcomes\<close>

text \<open>
  A piece of code leaves the page in some state and either completes (\<open>None\<close>) or throws;
  what it wrote before throwing stays written.
\<close>

type_synonym outcome = "exn option \<times> page"

definition and_then :: "(page \<Rightarrow> outcome) \<Rightarrow> (page \<Rightarrow> outcome) \<Rightarrow> page \<Rightarrow> outcome" where
  "and_then f g p = (case f p of (None, q) \<Rightarrow> g q | (Some e, q) \<Rightarrow> (Some e, q))"

definition try_catch :: "(page \<Rightarrow> outcome) \<Rightarrow> (exn \<Rightarrow> page \<Rightarrow> outcome) \<Rightarrow> page \<Rightarrow> outcome" where
  "try_catch body handler p = (case body p of (None, q) \<Rightarrow> (None, q) | (Some e, q) \<Rightarrow> handler e q)"

definition bind :: "exn + 'a \<Rightarrow> ('a \<Rightarrow> exn + 'b) \<Rightarrow> exn + 'b" where
  "bind m f = (case m of Inl e \<Rightarrow> Inl e | Inr x \<Rightarrow> f x)"

section \<open>Render targets\<close>

text \<open>
  \<^verbatim>\<open>updateEl\<close>. Every callback that the script leaves in \<^verbatim>\<open>setTimeout\<close> for an element
  is the text swap of \<^verbatim>\<open>updateEl\<close>, with the same delay of 150 ms, so the callbacks run in
  the order in which they were scheduled; \<open>timers\<close> is that queue, each entry the
  element and the text to write.
\<close>

definition updateEl :: "string \<Rightarrow> string \<Rightarrow> page \<Rightarrow> page" where
  "updateEl ident val p =
     (case elements p ident of
        None \<Rightarrow> p
      | Some el \<Rightarrow>
          if textContent el = val then p
          else p\<lparr>elements := (elements p)(ident \<mapsto>
                    el\<lparr>transition := ''transform 0.3s ease, opacity 0.3s ease'',
                       transform := ''scale(0.85)'',
                       opacity := ''0''\<rparr>),
                  timers := timers p @ [(ident, val)]\<rparr>)"

text \<open>The callback of \<^verbatim>\<open>updateEl\<close>, run by the event loop 150 ms after the call.\<close>

definition swap_text :: "string \<times> string \<Rightarrow> page \<Rightarrow> page" where
  "swap_text t p =
     (case elements p (fst t) of
        None \<Rightarrow> p
      | Some el \<Rightarrow>
          p\<lparr>elements := (elements p)(fst t \<mapsto>
               el\<lparr>textContent := snd t, transform := ''scale(1)'', opacity := ''1''\<rparr>)\<rparr>)"

text \<open>The event loop once every pending delay has passed: all waiting callbacks, in order.\<close>

definition run_timers :: "page \<Rightarrow> page" where
  "run_timers p = fold swap_text (timers p) (p\<lparr>timers := []\<rparr>)"

text \<open>A render step: compute the text, which may throw, then update the element.\<close>

definition update_with :: "string \<Rightarrow> exn + string \<Rightarrow> page \<Rightarrow> outcome" where
  "update_with ident text p =
     (case text of Inl e \<Rightarrow> (Some e, p) | Inr val \<Rightarrow> (None, updateEl ident val p))"

definition set_innerHTML :: "string \<Rightarrow> exn + string \<Rightarrow> page \<Rightarrow> outcome" where
  "set_innerHTML ident html p =
     (case html of
        Inl e \<Rightarrow> (Some e, p)
      | Inr h \<Rightarrow>
          (case elements p ident of
             None \<Rightarrow> (None, p)
           | Some el \<Rightarrow> (None, p\<lparr>elements := (elements p)(ident \<mapsto> el\<lparr>innerHTML := h\<rparr>)\<rparr>)))"

text \<open>\<^verbatim>\<open>xs.map\<close> exists on arrays only; called on anything else it throws.\<close>

fun as_array :: "js \<Rightarrow> exn + js list" where
  "as_array (Arr xs) = Inr xs"
| "as_array v = Inl TypeError"

section \<open>GitHubAPI: rendering\<close>

definition renderRepoStats :: "engine \<Rightarrow> page \<Rightarrow> outcome" where
  "renderRepoStats eng p =
     (if \<not> truthy (repoStats p) then (None, p)
      else
        let s = repoStats p in
        (and_then (update_with ''hero-stars''
            (bind (bind (get_prop s ''stars'') (formatNumber eng)) (\<lambda>t. Inr (t @ ''+''))))
        (and_then (update_with ''hero-forks''
            (bind (bind (get_prop s ''forks'') (formatNumber eng)) (\<lambda>t. Inr (t @ ''+''))))
        (and_then (update_with ''detailed-stars''
            (bind (get_prop s ''stars'') (formatNumberFull eng)))
        (and_then (update_with ''detailed-forks''
            (bind (get_prop s ''forks'') (formatNumberFull eng)))
        (and_then (update_with ''detailed-watchers''
            (bind (get_prop s ''watchers'') (formatNumberFull eng)))
        (update_with ''detailed-issues''
            (bind (get_prop s ''openIssues'') (toString eng)))))))) p)"

definition renderDownloads :: "engine \<Rightarrow> page \<Rightarrow> outcome" where
  "renderDownloads eng p =
     (and_then (update_with ''hero-downloads''
          (bind (formatNumber eng (totalDownloads p)) (\<lambda>t. Inr (t @ ''+''))))
       (update_with ''detailed-downloads'' (formatNumberFull eng (totalDownloads p)))) p"

definition renderCommits :: "engine \<Rightarrow> int \<Rightarrow> page \<Rightarrow> outcome" where
  "renderCommits eng now p =
     (if elements p ''commits-list'' = None \<or> \<not> truthy (commits p) then (None, p)
      else set_innerHTML ''commits-list'' (bind (as_array (commits p)) (commits_html eng now)) p)"

definition renderContributors :: "engine \<Rightarrow> page \<Rightarrow> outcome" where
  "renderContributors eng p =
     (if elements p ''contributors-list'' = None \<or> \<not> truthy (contributors p) then (None, p)
      else set_innerHTML ''contributors-list''
             (bind (as_array (contributors p)) (contributors_html eng)) p)"

definition renderLanguages :: "engine \<Rightarrow> page \<Rightarrow> outcome" where
  "renderLanguages eng p =
     (if elements p ''languages-bar'' = None \<or> \<not> truthy (languages p) then (None, p)
      else
        (and_then (set_innerHTML ''languages-bar''
            (bind (as_array (languages p)) (languages_bar_html eng)))
          (\<lambda>q. if elements q ''languages-legend'' = None then (None, q)
                else set_innerHTML ''languages-legend''
                       (bind (as_array (languages q)) (\<lambda>ls. languages_legend_html eng (take 6 ls))) q)) p)"

definition renderLatestRelease :: "engine \<Rightarrow> int \<Rightarrow> page \<Rightarrow> outcome" where
  "renderLatestRelease eng now p =
     (case elements p ''latest-release-badge'' of
        None \<Rightarrow> (None, p)
      | Some el \<Rightarrow>
          if \<not> truthy (latestRelease p) then (None, p)
          else
            (case release_html eng now (latestRelease p) of
               Inl e \<Rightarrow> (Some e, p)
             | Inr h \<Rightarrow>
                 (None, p\<lparr>elements := (elements p)(''latest-release-badge'' \<mapsto>
                              el\<lparr>innerHTML := h, display := ''inline-flex''\<rparr>)\<rparr>)))"

section \<open>GitHubAPI: fetching\<close>

text \<open>
  The model is of the first script of \<^verbatim>\<open>js/script.js\<close>, the one that caches. A load
  reads the clock when it looks the cache up, when it stores and when it renders dates; the
  model takes one reading, \<open>now\<close>, for the whole load.
\<close>

text \<open>
  What one \<^verbatim>\<open>fetch\<close> comes back with: the promise rejects, or there is a response with
  a status, a body (\<open>None\<close> when it is not JSON, so that \<^verbatim>\<open>resp.json()\<close> rejects) and
  possibly a \<^verbatim>\<open>Link\<close> header.
\<close>

datatype response =
    NetworkFailure
  | Response (status: nat) (body: "js option") (link: "string option")

definition ok :: "nat \<Rightarrow> bool" where
  "ok st = (200 \<le> st \<and> st \<le> 299)"

text \<open>
  \<^verbatim>\<open>const resp = await fetch(url); if (!resp.ok) throw new Error(...);
  const data = await resp.json();\<close>
\<close>

fun fetch_json :: "response \<Rightarrow> exn + js" where
  "fetch_json NetworkFailure = Inl NetworkError"
| "fetch_json (Response st b l) =
     (if \<not> ok st then Inl (HttpError st)
      else case b of None \<Rightarrow> Inl SyntaxError | Some data \<Rightarrow> Inr data)"

subsection \<open>Repository statistics\<close>

definition repo_stats_of :: "js \<Rightarrow> exn + js" where
  "repo_stats_of data =
     bind (get_prop data ''stargazers_count'') (\<lambda>stars.
     bind (get_prop data ''forks_count'') (\<lambda>forks.
     bind (get_prop data ''subscribers_count'') (\<lambda>watchers.
     bind (get_prop data ''open_issues_count'') (\<lambda>issues.
       Inr (Obj [(''stars'', stars), (''forks'', forks),
                 (''watchers'', watchers), (''openIssues'', issues)])))))"

definition repo_stats_fallback :: js where
  "repo_stats_fallback =
     Obj [(''stars'', Num 10200), (''forks'', Num 879), (''watchers'', Num 168), (''openIssues'', Num 0)]"

definition loadRepoStats :: "engine \<Rightarrow> int \<Rightarrow> response \<Rightarrow> page \<Rightarrow> outcome" where
  "loadRepoStats eng now resp p =
     (let (cached, p1) = CacheManager_get eng now ''repo_stats'' p in
      if truthy cached then renderRepoStats eng (p1\<lparr>repoStats := cached\<rparr>)
      else
        try_catch
          (\<lambda>q. case bind (fetch_json resp) repo_stats_of of
                  Inl e \<Rightarrow> (Some e, q)
                | Inr stats \<Rightarrow>
                    renderRepoStats eng
                      (CacheManager_set now ''repo_stats'' stats (q\<lparr>repoStats := stats\<rparr>)))
          (\<lambda>e q. renderRepoStats eng
                    ((Utils_log ''Repo stats fetch error:'' q)\<lparr>repoStats := repo_stats_fallback\<rparr>))
          p1)"

subsection \<open>Total downloads\<close>

text \<open>\<^verbatim>\<open>for (const x of v)\<close>: arrays and strings can be iterated, nothing else can.\<close>

fun iterate :: "js \<Rightarrow> exn + js list" where
  "iterate (Arr xs) = Inr xs"
| "iterate (Str s) = Inr (map (\<lambda>c. Str [c]) s)"
| "iterate v = Inl TypeError"

text \<open>
  \<^verbatim>\<open>a + b\<close>. The sum of two numbers is the double nearest to their exact sum; from
  \<open>2 ^ 1024\<close> on that is \<^verbatim>\<open>Infinity\<close>, which is left to the engine.
\<close>

fun plus :: "engine \<Rightarrow> js \<Rightarrow> js \<Rightarrow> exn + js" where
  "plus eng (Num a) (Num b) =
     (if \<bar>to_double (a + b)\<bar> < 2 ^ 1024 then Inr (Num (to_double (a + b)))
      else plus_coerced eng (Num a) (Num b))"
| "plus eng a b = plus_coerced eng a b"

text \<open>\<^verbatim>\<open>x || y\<close>\<close>

definition or_else :: "js \<Rightarrow> js \<Rightarrow> js" where
  "or_else x y = (if truthy x then x else y)"

text \<open>
  The inner loop, \<^verbatim>\<open>for (const asset of (release.assets || [])) total +=
  asset.download_count || 0\<close>, and the loop over the releases of one page around it.
\<close>

fun add_assets :: "engine \<Rightarrow> js list \<Rightarrow> js \<Rightarrow> exn + js" where
  "add_assets eng [] tot = Inr tot"
| "add_assets eng (asset # rest) tot =
     bind (get_prop asset ''download_count'') (\<lambda>c.
     bind (plus eng tot (or_else c (Num 0))) (\<lambda>tot'.
       add_assets eng rest tot'))"

fun add_releases :: "engine \<Rightarrow> js list \<Rightarrow> js \<Rightarrow> exn + js" where
  "add_releases eng [] tot = Inr tot"
| "add_releases eng (release # rest) tot =
     bind (get_prop release ''assets'') (\<lambda>a.
     bind (iterate (or_else a (Arr []))) (\<lambda>assets.
     bind (add_assets eng assets tot) (\<lambda>tot'.
       add_releases eng rest tot')))"

definition rel_next :: string where
  "rel_next = ''rel='' @ [CHR 0x22] @ ''next'' @ [CHR 0x22]"

text \<open>\<^verbatim>\<open>hasMore = linkHeader && linkHeader.includes('rel="next"')\<close>, as the loop tests it.\<close>

definition has_next :: "string option \<Rightarrow> bool" where
  "has_next linkHeader = (case linkHeader of None \<Rightarrow> False | Some l \<Rightarrow> sublist rel_next l)"

text \<open>
  One page of the loop: the fetch, the empty-page test and the sums. The result is the
  new total and whether the loop goes on after this page as far as the page itself says.
\<close>

definition download_page :: "engine \<Rightarrow> response \<Rightarrow> js \<Rightarrow> exn + js \<times> bool" where
  "download_page eng resp tot =
     bind (fetch_json resp) (\<lambda>releases.
     bind (get_prop releases ''length'') (\<lambda>len.
       if len = Num 0 then Inr (tot, False)
       else
         bind (iterate releases) (\<lambda>rs.
         bind (add_releases eng rs tot) (\<lambda>tot'.
           Inr (tot', has_next (link resp))))))"

text \<open>
  The \<^verbatim>\<open>while (hasMore)\<close> loop from page \<open>page\<close> on, the server being the function
  from page numbers to responses. The result is the total (or the exception) and the list
  of the pages that were fetched, in order.
\<close>

function download_pages ::
  "engine \<Rightarrow> (nat \<Rightarrow> response) \<Rightarrow> nat \<Rightarrow> js \<Rightarrow> nat list \<Rightarrow> (exn + js) \<times> nat list" where
  "download_pages eng server page tot fetched =
     (case download_page eng (server page) tot of
        Inl e \<Rightarrow> (Inl e, fetched @ [page])
      | Inr (tot', hasMore) \<Rightarrow>
          if hasMore \<and> \<not> page + 1 > 20
          then download_pages eng server (page + 1) tot' (fetched @ [page])
          else (Inr tot', fetched @ [page]))"
  by pat_completeness auto
termination
  by (relation "measure (\<lambda>(eng, server, page, tot, fetched). 21 - page)") auto

declare download_pages.simps [simp del]

definition loadTotalDownloads :: "engine \<Rightarrow> int \<Rightarrow> (nat \<Rightarrow> response) \<Rightarrow> page \<Rightarrow> outcome" where
  "loadTotalDownloads eng now server p =
     (let (cached, p1) = CacheManager_get eng now ''total_downloads'' p in
      if cached \<noteq> Null then renderDownloads eng (p1\<lparr>totalDownloads := cached\<rparr>)
      else
        try_catch
          (\<lambda>q. case fst (download_pages eng server 1 (Num 0) []) of
                  Inl e \<Rightarrow> (Some e, q)
                | Inr tot \<Rightarrow>
                    renderDownloads eng
                      (CacheManager_set now ''total_downloads'' tot (q\<lparr>totalDownloads := tot\<rparr>)))
          (\<lambda>e q. renderDownloads eng
                    ((Utils_log ''Downloads fetch error:'' q)\<lparr>totalDownloads := Num 1000000\<rparr>))
          p1)"

subsection \<open>Commits\<close>

text \<open>\<^verbatim>\<open>s.substring(0, n)\<close>, a method of strings only.\<close>

fun substring0 :: "nat \<Rightarrow> js \<Rightarrow> exn + js" where
  "substring0 n (Str s) = Inr (Str (take n s))"
| "substring0 n v = Inl TypeError"

text \<open>\<^verbatim>\<open>s.split('\n')[0]\<close>, a method of strings only: the text before the first line feed.\<close>

fun first_line :: "js \<Rightarrow> exn + js" where
  "first_line (Str s) = Inr (Str (takeWhile (\<lambda>c. c \<noteq> CHR 0x0A) s))"
| "first_line v = Inl TypeError"

definition commit_summary :: "js \<Rightarrow> exn + js" where
  "commit_summary c =
     bind (bind (get_prop c ''sha'') (substring0 7)) (\<lambda>sha.
     bind (get_prop c ''commit'') (\<lambda>commit.
     bind (get_prop commit ''message'') (\<lambda>m.
     bind (bind (first_line (or_else m (Str []))) (substring0 80)) (\<lambda>message.
     bind (get_prop commit ''author'') (\<lambda>committer.
     bind (get_prop committer ''date'') (\<lambda>date.
     bind (get_prop c ''author'') (\<lambda>account.
     bind (if truthy account then get_prop account ''login'' else get_prop committer ''name'') (\<lambda>author.
     bind (if truthy account then get_prop account ''avatar_url'' else Inr Null) (\<lambda>avatar.
       Inr (Obj [(''sha'', sha), (''message'', message), (''date'', date),
                 (''author'', author), (''avatar'', avatar)]))))))))))"

text \<open>\<^verbatim>\<open>xs.map(f)\<close> with an \<open>f\<close> that may throw: the first exception ends it.\<close>

fun map_throwing :: "('a \<Rightarrow> exn + 'b) \<Rightarrow> 'a list \<Rightarrow> exn + 'b list" where
  "map_throwing f [] = Inr []"
| "map_throwing f (x # xs) = bind (f x) (\<lambda>y. bind (map_throwing f xs) (\<lambda>ys. Inr (y # ys)))"

definition normalize_commits :: "js \<Rightarrow> exn + js" where
  "normalize_commits data =
     bind (as_array data) (\<lambda>cs. bind (map_throwing commit_summary cs) (\<lambda>ys. Inr (Arr ys)))"

definition loadCommits :: "engine \<Rightarrow> int \<Rightarrow> response \<Rightarrow> page \<Rightarrow> outcome" where
  "loadCommits eng now resp p =
     (let (cached, p1) = CacheManager_get eng now ''commits'' p in
      if truthy cached then renderCommits eng now (p1\<lparr>commits := cached\<rparr>)
      else
        try_catch
          (\<lambda>q. case bind (fetch_json resp) normalize_commits of
                  Inl e \<Rightarrow> (Some e, q)
                | Inr cs \<Rightarrow>
                    renderCommits eng now
                      (CacheManager_set now ''commits'' cs (q\<lparr>commits := cs\<rparr>)))
          (\<lambda>e q. (None, Utils_log ''Commits fetch error:'' q))
          p1)"

subsection \<open>Contributors\<close>

definition contributor_summary :: "js \<Rightarrow> exn + js" where
  "contributor_summary c =
     bind (get_prop c ''login'') (\<lambda>login.
     bind (get_prop c ''avatar_url'') (\<lambda>avatar.
     bind (get_prop c ''contributions'') (\<lambda>contributions.
     bind (get_prop c ''html_url'') (\<lambda>url.
       Inr (Obj [(''login'', login), (''avatar'', avatar),
                 (''contributions'', contributions), (''url'', url)])))))"

definition normalize_contributors :: "js \<Rightarrow> exn + js" where
  "normalize_contributors data =
     bind (as_array data) (\<lambda>cs. bind (map_throwing contributor_summary cs) (\<lambda>ys. Inr (Arr ys)))"

definition loadContributors :: "engine \<Rightarrow> int \<Rightarrow> response \<Rightarrow> page \<Rightarrow> outcome" where
  "loadContributors eng now resp p =
     (let (cached, p1) = CacheManager_get eng now ''contributors'' p in
      if truthy cached then renderContributors eng (p1\<lparr>contributors := cached\<rparr>)
      else
        try_catch
          (\<lambda>q. case bind (fetch_json resp) normalize_contributors of
                  Inl e \<Rightarrow> (Some e, q)
                | Inr cs \<Rightarrow>
                    renderContributors eng
                      (CacheManager_set now ''contributors'' cs (q\<lparr>contributors := cs\<rparr>)))
          (\<lambda>e q. (None, Utils_log ''Contributors fetch error:'' q))
          p1)"

subsection \<open>Languages\<close>

text \<open>
  \<^verbatim>\<open>Object.values(data)\<close> throws on \<^verbatim>\<open>null\<close>; the percentages of anything else are
  floating-point work of the engine.
\<close>

fun normalize_languages :: "engine \<Rightarrow> js \<Rightarrow> exn + js" where
  "normalize_languages eng Null = Inl TypeError"
| "normalize_languages eng Undefined = Inl TypeError"
| "normalize_languages eng data = language_percentages eng data"

definition loadLanguages :: "engine \<Rightarrow> int \<Rightarrow> response \<Rightarrow> page \<Rightarrow> outcome" where
  "loadLanguages eng now resp p =
     (let (cached, p1) = CacheManager_get eng now ''languages'' p in
      if truthy cached then renderLanguages eng (p1\<lparr>languages := cached\<rparr>)
      else
        try_catch
          (\<lambda>q. case bind (fetch_json resp) (normalize_languages eng) of
                  Inl e \<Rightarrow> (Some e, q)
                | Inr ls \<Rightarrow>
                    renderLanguages eng
                      (CacheManager_set now ''languages'' ls (q\<lparr>languages := ls\<rparr>)))
          (\<lambda>e q. (None, Utils_log ''Languages fetch error:'' q))
          p1)"

subsection \<open>Latest release\<close>

definition release_info :: "js \<Rightarrow> exn + js" where
  "release_info data =
     bind (get_prop data ''tag_name'') (\<lambda>tag.
     bind (get_prop data ''name'') (\<lambda>name.
     bind (get_prop data ''published_at'') (\<lambda>date.
     bind (get_prop data ''html_url'') (\<lambda>url.
       Inr (Obj [(''tag'', tag), (''name'', name), (''date'', date), (''url'', url)])))))"

definition loadLatestRelease :: "engine \<Rightarrow> int \<Rightarrow> response \<Rightarrow> page \<Rightarrow> outcome" where
  "loadLatestRelease eng now resp p =
     (let (cached, p1) = CacheManager_get eng now ''latest_release'' p in
      if truthy cached then renderLatestRelease eng now (p1\<lparr>latestRelease := cached\<rparr>)
      else
        try_catch
          (\<lambda>q. case bind (fetch_json resp) release_info of
                  Inl e \<Rightarrow> (Some e, q)
                | Inr r \<Rightarrow>
                    renderLatestRelease eng now
                      (CacheManager_set now ''latest_release'' r (q\<lparr>latestRelease := r\<rparr>)))
          (\<lambda>e q. (None, Utils_log ''Latest release fetch error:'' q))
          p1)"

subsection \<open>Initialization\<close>

text \<open>
  What the six requests of one page load come back with; the release listing answers page
  by page.
\<close>

record responses =
  repo_response :: response
  releases_server :: "nat \<Rightarrow> response"
  commits_response :: response
  contributors_response :: response
  languages_response :: response
  latest_response :: response

text \<open>
  \<^verbatim>\<open>Promise.all\<close> over the six loads. Each load runs to its end whatever becomes of the
  others, and the promise of \<^verbatim>\<open>init\<close> is rejected when one of them is. The loads are
  run here one after the other in the order of the array; \<open>also_run\<close> keeps the first
  exception and goes on. In the browser the part of a load after its fetch runs when the
  response arrives, so the loads finish in any order; they share no cache key, no field
  and no element, and the order shows only in the order of the queue \<open>timers\<close>, and in
  which exception \<open>init\<close> reports when several loads throw.
\<close>

definition also_run :: "(page \<Rightarrow> outcome) \<Rightarrow> outcome \<Rightarrow> outcome" where
  "also_run load r =
     (case load (snd r) of
        (e, q) \<Rightarrow> (case fst r of None \<Rightarrow> (e, q) | Some e0 \<Rightarrow> (Some e0, q)))"

definition init :: "engine \<Rightarrow> int \<Rightarrow> responses \<Rightarrow> page \<Rightarrow> outcome" where
  "init eng now rs p =
     also_run (loadLatestRelease eng now (latest_response rs))
    (also_run (loadLanguages eng now (languages_response rs))
    (also_run (loadContributors eng now (contributors_response rs))
    (also_run (loadCommits eng now (commits_response rs))
    (also_run (loadTotalDownloads eng now (releases_server rs))
    (loadRepoStats eng now (repo_response rs) p)))))"

text \<open>The constructor of \<^verbatim>\<open>GitHubAPI\<close>.\<close>

definition GitHubAPI_new :: "page \<Rightarrow> page" where
  "GitHubAPI_new p =
     p\<lparr>repoStats := Null, totalDownloads := Null, commits := Null,
       contributors := Null, languages := Null, latestRelease := Null\<rparr>"

text \<open>
  The \<^verbatim>\<open>DOMContentLoaded\<close> handler, without the preloader and the visual effects: the
  sweep, then the six loads.
\<close>

definition on_DOMContentLoaded :: "engine \<Rightarrow> int \<Rightarrow> responses \<Rightarrow> page \<Rightarrow> outcome" where
  "on_DOMContentLoaded eng now rs p =
     init eng now rs (GitHubAPI_new (CacheManager_clearOld eng now p))"

section \<open>Payloads as the API documents them\<close>

text \<open>
  A release listing: every release has its list of assets or no \<^verbatim>\<open>assets\<close> property,
  every asset has its download counter or none.
\<close>

definition asset_json :: "int option \<Rightarrow> js" where
  "asset_json c = Obj (case c of None \<Rightarrow> [] | Some n \<Rightarrow> [(''download_count'', Num n)])"

definition release_json :: "int option list option \<Rightarrow> js" where
  "release_json r =
     Obj (case r of None \<Rightarrow> [] | Some cs \<Rightarrow> [(''assets'', Arr (map asset_json cs))])"

definition releases_response :: "int option list option list \<Rightarrow> string option \<Rightarrow> response" where
  "releases_response rs lnk = Response 200 (Some (Arr (map release_json rs))) lnk"

text \<open>
  The sum that the specification asks for: every asset's counter, a missing one counting
  as 0, over every release of a page.
\<close>

definition counter_or_0 :: "int option \<Rightarrow> int" where
  "counter_or_0 c = (case c of None \<Rightarrow> 0 | Some n \<Rightarrow> n)"

definition release_downloads :: "int option list option \<Rightarrow> int" where
  "release_downloads r = (case r of None \<Rightarrow> 0 | Some cs \<Rightarrow> sum_list (map counter_or_0 cs))"

definition page_downloads :: "int option list option list \<Rightarrow> int" where
  "page_downloads rs = sum_list (map release_downloads rs)"

text \<open>No counter of a release listing is negative.\<close>

definition counters_nonneg :: "int option list option list \<Rightarrow> bool" where
  "counters_nonneg rs =
     list_all (\<lambda>r. case r of None \<Rightarrow> True
                     | Some cs \<Rightarrow> list_all (\<lambda>c. 0 \<le> counter_or_0 c) cs) rs"

text \<open>
  A commit of the commit listing: hash, message, date and name of the commit author, and
  the linked account (login and avatar), \<^verbatim>\<open>null\<close> when there is none.
\<close>

record raw_commit =
  raw_sha :: string
  raw_message :: string
  raw_date :: string
  raw_name :: string
  raw_account :: "(string \<times> string) option"

definition commit_json :: "raw_commit \<Rightarrow> js" where
  "commit_json rc =
     Obj [(''sha'', Str (raw_sha rc)),
          (''commit'', Obj [(''author'', Obj [(''name'', Str (raw_name rc)),
                                            (''date'', Str (raw_date rc))]),
                          (''message'', Str (raw_message rc))]),
          (''author'', case raw_account rc of
                         None \<Rightarrow> Null
                       | Some (login, avatar) \<Rightarrow>
                           Obj [(''login'', Str login), (''avatar_url'', Str avatar)])]"

text \<open>
  The summary that the specification asks for: the hash cut to 7 characters, the first
  line of the message cut to 80, the date, the login of the linked account or else the
  name of the commit author, and the avatar of the linked account.
\<close>

definition summary_of :: "raw_commit \<Rightarrow> js" where
  "summary_of rc =
     Obj [(''sha'', Str (take 7 (raw_sha rc))),
          (''message'', Str (take 80 (takeWhile (\<lambda>c. c \<noteq> CHR 0x0A) (raw_message rc)))),
          (''date'', Str (raw_date rc)),
          (''author'', Str (case raw_account rc of None \<Rightarrow> raw_name rc | Some (login, avatar) \<Rightarrow> login)),
          (''avatar'', case raw_account rc of None \<Rightarrow> Null | Some (login, avatar) \<Rightarrow> Str avatar)]"

section \<open>Failures and fallbacks, as the specification names them\<close>

text \<open>
  A network or parse failure of one request: the fetch rejects, the status is not a
  success, or the body is not JSON.
\<close>

definition failed :: "response \<Rightarrow> bool" where
  "failed resp = (case fetch_json resp of Inl e \<Rightarrow> True | Inr data \<Rightarrow> False)"

text \<open>The page once the fixed fallback statistics have been put in and rendered.\<close>

definition stats_fallback_rendered :: "page \<Rightarrow> page" where
  "stats_fallback_rendered q =
     updateEl ''detailed-issues'' ''0''
    (updateEl ''detailed-watchers'' ''168''
    (updateEl ''detailed-forks'' ''879''
    (updateEl ''detailed-stars'' ''10,200''
    (updateEl ''hero-forks'' ''879+''
    (updateEl ''hero-stars'' ''10.2k+'' (q\<lparr>repoStats := repo_stats_fallback\<rparr>))))))"

text \<open>The page once the fixed fallback total has been put in and rendered.\<close>

definition downloads_fallback_rendered :: "page \<Rightarrow> page" where
  "downloads_fallback_rendered q =
     updateEl ''detailed-downloads'' ''1,000,000''
    (updateEl ''hero-downloads'' ''1M+'' (q\<lparr>totalDownloads := Num 1000000\<rparr>))"

text \<open>The page as a cache lookup leaves it: a stale entry under the key is dropped.\<close>

definition looked_up :: "engine \<Rightarrow> int \<Rightarrow> string \<Rightarrow> page \<Rightarrow> page" where
  "looked_up eng now key p = p\<lparr>storage := storage (snd (CacheManager_get eng now key p))\<rparr>"

text \<open>Nothing usable is cached for any of the six categories, so that all six fetch.\<close>

definition all_miss :: "engine \<Rightarrow> int \<Rightarrow> page \<Rightarrow> bool" where
  "all_miss eng now p =
     (\<not> truthy (fst (CacheManager_get eng now ''repo_stats'' p))
      \<and> fst (CacheManager_get eng now ''total_downloads'' p) = Null
      \<and> \<not> truthy (fst (CacheManager_get eng now ''commits'' p))
      \<and> \<not> truthy (fst (CacheManager_get eng now ''contributors'' p))
      \<and> \<not> truthy (fst (CacheManager_get eng now ''languages'' p))
      \<and> \<not> truthy (fst (CacheManager_get eng now ''latest_release'' p)))"

text \<open>The keys under which the six loads cache.\<close>

definition cache_keys :: "string list" where
  "cache_keys =
     map (\<lambda>key. CACHE_PREFIX @ key)
       [''repo_stats'', ''total_downloads'', ''commits'', ''contributors'',
        ''languages'', ''latest_release'']"

section \<open>Sample inputs\<close>

text \<open>
  An engine for the examples (its templates give the empty string, and no example reaches
  a coercion), a page as the browser hands it to the script (nothing on the console, no
  timer waiting, the six fields \<^verbatim>\<open>null\<close> as the constructor sets them), and some
  stores, servers and payloads.
\<close>

definition sample_engine :: engine where
  "sample_engine =
     \<lparr>elapsed_exceeds = (\<lambda>now v d. Inr False),
      plus_coerced = (\<lambda>a b. Inl TypeError),
      formatNumber_coerced = (\<lambda>v. Inr ''NaN''),
      toLocaleString_other = (\<lambda>v. Inr []),
      toString_other = (\<lambda>v. Inr []),
      language_percentages = (\<lambda>v. Inr (Arr [])),
      commits_html = (\<lambda>now cs. Inr []),
      contributors_html = (\<lambda>cs. Inr []),
      languages_bar_html = (\<lambda>ls. Inr []),
      languages_legend_html = (\<lambda>ls. Inr []),
      release_html = (\<lambda>now r. Inr [])\<rparr>"

definition fresh_page :: "local_storage \<Rightarrow> (string \<rightharpoonup> element) \<Rightarrow> page" where
  "fresh_page st els =
     \<lparr>storage = st, console = [], elements = els, timers = [],
      repoStats = Null, totalDownloads = Null, commits = Null,
      contributors = Null, languages = Null, latestRelease = Null\<rparr>"

definition empty_store :: local_storage where
  "empty_store = Storage [] False"

definition day_old_entry :: js where
  "day_old_entry = Obj [(''data'', Num 7), (''timestamp'', Num 0)]"

definition hour_old_entry :: js where
  "hour_old_entry = Obj [(''data'', Num 8), (''timestamp'', Num 96400000)]"

definition used_store :: local_storage where
  "used_store =
     Storage [(''die_commits'', Json day_old_entry),
              (''theme'', Json day_old_entry),
              (''die_total_downloads'', Json hour_old_entry),
              (''die_legacy'', Json day_old_entry)] False"

definition next_link :: string where
  "next_link = ''<https://api.github.com/releases?page=2>; '' @ rel_next"

definition sample_releases :: "nat \<Rightarrow> int option list option list" where
  "sample_releases p = (if p < 4 then [Some [Some 5, None], None, Some [Some (int p)]] else [])"

definition sample_links :: "nat \<Rightarrow> string option" where
  "sample_links p = (if p < 4 then Some next_link else None)"

definition sample_server :: "nat \<Rightarrow> response" where
  "sample_server p = releases_response (sample_releases p) (sample_links p)"

definition single_page_server :: "nat \<Rightarrow> response" where
  "single_page_server p = releases_response [Some [Some 7, Some 8]] None"

definition huge_server :: "nat \<Rightarrow> response" where
  "huge_server p = releases_response [Some [Some 9007199254740992, Some 1, Some 1]] None"

definition sample_commit :: raw_commit where
  "sample_commit =
     \<lparr>raw_sha = ''0123456789abcdef0123456789abcdef01234567'',
      raw_message = ''Fix scan of packed files'' @ [CHR 0x0A] @ ''Details follow'',
      raw_date = ''2026-01-05T10:00:00Z'',
      raw_name = ''A. Committer'',
      raw_account = None\<rparr>"

definition text_element :: "string \<Rightarrow> element" where
  "text_element t =
     \<lparr>textContent = t, innerHTML = [], transition = [], transform = [], opacity = [], display = []\<rparr>"

definition stats_page :: page where
  "stats_page = fresh_page empty_store [''hero-stars'' \<mapsto> text_element ''0'']"

definition shown_page :: page where
  "shown_page = fresh_page empty_store [''hero-stars'' \<mapsto> text_element ''10.2k+'']"

definition offline_server :: "nat \<Rightarrow> response" where
  "offline_server page = NetworkFailure"

definition dashboard :: page where
  "dashboard =
     fresh_page empty_store
       [''hero-stars'' \<mapsto> text_element ''...'',
        ''hero-downloads'' \<mapsto> text_element ''...'',
        ''detailed-downloads'' \<mapsto> text_element ''...'',
        ''commits-list'' \<mapsto> text_element []]"

definition broken_responses :: responses where
  "broken_responses =
     \<lparr>repo_response = Response 200 (Some Null) None,
      releases_server = offline_server,
      commits_response = Response 200 (Some (Obj [(''message'', Str ''rate limit'')])) None,
      contributors_response = Response 200 (Some (Arr [Null])) None,
      languages_response = Response 500 None None,
      latest_response = Response 200 None None\<rparr>"

definition poisoned_store :: local_storage where
  "poisoned_store = Storage [(''die_repo_stats'', Json (Obj [(''data'', Obj []), (''timestamp'', Num 0)]))] False"

section \<open>Properties of the cache\<close>

lemma JSON_roundtrip_json: "is_json v \<Longrightarrow> JSON_roundtrip v = v"
proof (induction v rule: JSON_roundtrip.induct)
  case (1 xs)
  have "Undefined \<notin> set xs" using 1(2) by (auto simp: list_all_iff)
  with 1 show ?case by (auto simp: list_all_iff intro!: map_idI)
next
  case (2 fs)
  have nu: "\<And>k v. (k, v) \<in> set fs \<Longrightarrow> v \<noteq> Undefined"
    using 2(2) by (auto simp: list_all_iff)
  then have f: "filter (\<lambda>(k, v). v \<noteq> Undefined) fs = fs"
    by (auto intro!: filter_True)
  have "map (\<lambda>(k, v). (k, JSON_roundtrip v)) fs = fs"
  proof (rule map_idI)
    fix kv assume kv: "kv \<in> set fs"
    obtain k v where e: "kv = (k, v)" by (cases kv)
    have j: "is_json v" using 2(2) kv e by (auto simp: list_all_iff)
    have m: "(k, v) \<in> set (filter (\<lambda>(k, v). v \<noteq> Undefined) fs)"
      using kv e by (simp only: f)
    have "JSON_roundtrip v = v" by (rule 2(1)[OF m refl j])
    then show "(case kv of (k, v) \<Rightarrow> (k, JSON_roundtrip v)) = kv" using e by simp
  qed
  with f show ?case by simp
qed auto

lemma Utils_log_id: "Utils_log msg p = p"
  by (simp add: Utils_log_def CONFIG_DEBUG_def)

lemma map_of_update_same: "map_of (AList.update k v es) k = Some v"
  by (simp add: update_conv')

lemma map_of_delete_same: "map_of (AList.delete k es) k = None"
  by (simp add: delete_conv')

text \<open>
  When the store refuses the write, \<^verbatim>\<open>set\<close> changes nothing: the \<^verbatim>\<open>catch\<close> only
  logs, and \<^verbatim>\<open>CONFIG.DEBUG\<close> is off.
\<close>

lemma CacheManager_set_refused:
  "storage p = Denied \<or> storage p = Storage es True \<Longrightarrow> CacheManager_set now key v p = p"
  by (auto simp: CacheManager_set_def Utils_log_id)

text \<open>
  Claim C1. For every key and every JSON value, on a store that takes the write: a
  \<^verbatim>\<open>get\<close> of the key no later than 30 minutes (by the clock) after the \<^verbatim>\<open>set\<close> returns
  the value that was set; a \<^verbatim>\<open>get\<close> later than that returns \<^verbatim>\<open>null\<close>, the absent
  answer, and the store it leaves has no entry under the key.
\<close>

theorem cache_get_after_set:
  assumes st: "storage p = Storage es False" and js: "is_json v"
  shows "(now' - now \<le> CACHE_DURATION \<longrightarrow>
            fst (CacheManager_get eng now' key (CacheManager_set now key v p)) = v)
       \<and> (now' - now > CACHE_DURATION \<longrightarrow>
            fst (CacheManager_get eng now' key (CacheManager_set now key v p)) = Null
          \<and> getItem (storage (snd (CacheManager_get eng now' key (CacheManager_set now key v p))))
                (CACHE_PREFIX @ key) = Inr None)"
  using st js
  by (simp add: CacheManager_get_def CacheManager_set_def JSON_stringify_def
        JSON_roundtrip_json map_of_update_same map_of_delete_same)

theorem cache_get_after_set_witness:
  "storage (fresh_page empty_store Map.empty) = Storage [] False
   \<and> is_json (Arr [Num 42, Str ''x''])
   \<and> (1800000::int) - 0 \<le> CACHE_DURATION
   \<and> fst (CacheManager_get sample_engine 1800000 ''commits''
            (CacheManager_set 0 ''commits'' (Arr [Num 42, Str ''x''])
               (fresh_page empty_store Map.empty))) = Arr [Num 42, Str ''x'']
   \<and> (1800001::int) - 0 > CACHE_DURATION
   \<and> fst (CacheManager_get sample_engine 1800001 ''commits''
            (CacheManager_set 0 ''commits'' (Arr [Num 42, Str ''x''])
               (fresh_page empty_store Map.empty))) = Null
   \<and> getItem (storage (snd (CacheManager_get sample_engine 1800001 ''commits''
            (CacheManager_set 0 ''commits'' (Arr [Num 42, Str ''x''])
               (fresh_page empty_store Map.empty))))) (CACHE_PREFIX @ ''commits'') = Inr None"
proof -
  have st: "storage (fresh_page empty_store Map.empty) = Storage [] False"
    by (simp add: fresh_page_def empty_store_def)
  have js: "is_json (Arr [Num 42, Str ''x''])" by simp
  show ?thesis
    using st js
      cache_get_after_set [OF st js, of 1800000 0 sample_engine "''commits''"]
      cache_get_after_set [OF st js, of 1800001 0 sample_engine "''commits''"]
    by (simp add: CACHE_DURATION_def)
qed

section \<open>Properties of the sweep\<close>

lemma getItem_removeItem_other:
  "removeItem st key = Inr st' \<Longrightarrow> k \<noteq> key \<Longrightarrow> getItem st' k = getItem st k"
  by (cases st) (auto simp: delete_conv')

lemma clearOld_key_no_prefix:
  "\<not> prefix CACHE_PREFIX key \<Longrightarrow> clearOld_key eng now key p = p"
  by (simp add: clearOld_key_def)

lemma clearOld_key_other:
  "k \<noteq> key \<Longrightarrow> getItem (storage (clearOld_key eng now key p)) k = getItem (storage p) k"
  by (auto simp: clearOld_key_def getItem_removeItem_other split: sum.splits bool.splits)

lemma clearOld_key_absent:
  "getItem (storage p) key = Inr None \<Longrightarrow> clearOld_key eng now key p = p"
  by (simp add: clearOld_key_def)

lemma clearOld_key_fresh:
  "getItem (storage p) key = Inr (Some (Json entry))
     \<Longrightarrow> get_prop entry ''timestamp'' = Inr (Num t)
     \<Longrightarrow> now - t \<le> RETENTION \<Longrightarrow> clearOld_key eng now key p = p"
  by (simp add: clearOld_key_def)

lemma clearOld_key_old:
  "getItem (storage p) key = Inr (Some (Json entry))
     \<Longrightarrow> get_prop entry ''timestamp'' = Inr (Num t)
     \<Longrightarrow> now - t > RETENTION \<Longrightarrow> prefix CACHE_PREFIX key
     \<Longrightarrow> getItem (storage (clearOld_key eng now key p)) key = Inr None"
  by (cases "storage p") (auto simp: clearOld_key_def delete_conv')

lemma fold_clearOld_no_prefix:
  "\<not> prefix CACHE_PREFIX k
     \<Longrightarrow> getItem (storage (fold (clearOld_key eng now) ks p)) k = getItem (storage p) k"
proof (induction ks arbitrary: p)
  case Nil
  show ?case by simp
next
  case (Cons key ks)
  have "getItem (storage (clearOld_key eng now key p)) k = getItem (storage p) k"
  proof (cases "k = key")
    case True
    with Cons.prems show ?thesis by (simp add: clearOld_key_no_prefix)
  next
    case False
    then show ?thesis by (rule clearOld_key_other)
  qed
  with Cons.IH [OF Cons.prems] show ?case by simp
qed

lemma fold_clearOld_absent:
  "getItem (storage p) k = Inr None
     \<Longrightarrow> getItem (storage (fold (clearOld_key eng now) ks p)) k = Inr None"
proof (induction ks arbitrary: p)
  case Nil
  then show ?case by simp
next
  case (Cons key ks)
  have "getItem (storage (clearOld_key eng now key p)) k = Inr None"
    using Cons.prems by (cases "k = key") (simp_all add: clearOld_key_absent clearOld_key_other)
  then show ?case using Cons.IH by simp
qed

lemma fold_clearOld_fresh:
  "getItem (storage p) k = Inr (Some (Json entry))
     \<Longrightarrow> get_prop entry ''timestamp'' = Inr (Num t)
     \<Longrightarrow> now - t \<le> RETENTION
     \<Longrightarrow> getItem (storage (fold (clearOld_key eng now) ks p)) k = Inr (Some (Json entry))"
proof (induction ks arbitrary: p)
  case Nil
  then show ?case by simp
next
  case (Cons key ks)
  have "getItem (storage (clearOld_key eng now key p)) k = Inr (Some (Json entry))"
    using Cons.prems by (cases "k = key") (simp_all add: clearOld_key_fresh clearOld_key_other)
  then show ?case using Cons.IH Cons.prems by simp
qed

lemma fold_clearOld_old:
  "k \<in> set ks \<Longrightarrow> prefix CACHE_PREFIX k
     \<Longrightarrow> getItem (storage p) k = Inr (Some (Json entry))
     \<Longrightarrow> get_prop entry ''timestamp'' = Inr (Num t)
     \<Longrightarrow> now - t > RETENTION
     \<Longrightarrow> getItem (storage (fold (clearOld_key eng now) ks p)) k = Inr None"
proof (induction ks arbitrary: p)
  case Nil
  then show ?case by simp
next
  case (Cons key ks)
  show ?case
  proof (cases "k = key")
    case True
    have "getItem (storage (clearOld_key eng now key p)) k = Inr None"
      using Cons.prems True by (simp add: clearOld_key_old)
    then show ?thesis by (simp add: fold_clearOld_absent)
  next
    case False
    then have "getItem (storage (clearOld_key eng now key p)) k = Inr (Some (Json entry))"
      using Cons.prems by (simp add: clearOld_key_other)
    moreover have "k \<in> set ks" using Cons.prems False by simp
    ultimately show ?thesis using Cons.IH Cons.prems by simp
  qed
qed

text \<open>
  Claim C10. The sweep leaves every key that does not start with \<^verbatim>\<open>die_\<close> as it was:
  what \<^verbatim>\<open>getItem\<close> gives for such a key after \<^verbatim>\<open>clearOld\<close> is what it gave before,
  whatever is stored under it.
\<close>

theorem sweep_frame:
  "\<not> prefix CACHE_PREFIX k
     \<Longrightarrow> getItem (storage (CacheManager_clearOld eng now p)) k = getItem (storage p) k"
  by (simp add: CacheManager_clearOld_def fold_clearOld_no_prefix split: sum.splits)

theorem sweep_frame_witness:
  "\<not> prefix CACHE_PREFIX ''theme''
   \<and> older_than sample_engine 100000000 (Num 0) RETENTION = Inr True
   \<and> getItem (storage (CacheManager_clearOld sample_engine 100000000
                (fresh_page used_store Map.empty))) ''theme'' = Inr (Some (Json day_old_entry))"
  using sweep_frame [of "''theme''" sample_engine 100000000 "fresh_page used_store Map.empty"]
  by (simp add: CACHE_PREFIX_def RETENTION_def fresh_page_def used_store_def)

lemma swap_text_storage: "storage (swap_text t p) = storage p"
  by (simp add: swap_text_def split: option.splits)

lemma fold_swap_storage: "storage (fold swap_text ts p) = storage p"
  by (induction ts arbitrary: p) (simp_all add: swap_text_storage)

section \<open>Properties of the number formatter\<close>

lemma formatNumber_num_950: "formatNumber_num 950 = ''950''"
  by code_simp

lemma formatNumber_num_1500: "formatNumber_num 1500 = ''1.5k''"
  by code_simp

lemma formatNumber_num_2300000: "formatNumber_num 2300000 = ''2.3M''"
  by code_simp

lemma formatNumber_num_1000: "formatNumber_num 1000 = ''1k''"
  by code_simp

lemma toFixed1_1000: "toFixed1 (Number_div 1000 1000) = ''1.0''"
  by code_simp

text \<open>
  Claim C9. \<^verbatim>\<open>Utils.formatNumber\<close> gives \<^verbatim>\<open>950\<close> for 950, \<^verbatim>\<open>1.5k\<close> for 1500,
  \<^verbatim>\<open>2.3M\<close> for 2300000 and \<^verbatim>\<open>1k\<close> for 1000, where the one-decimal mantissa is
  \<^verbatim>\<open>1.0\<close> and its \<^verbatim>\<open>.0\<close> is dropped.
\<close>

theorem formatNumber_examples:
  "formatNumber eng (Num 950) = Inr ''950''
   \<and> formatNumber eng (Num 1500) = Inr ''1.5k''
   \<and> formatNumber eng (Num 2300000) = Inr ''2.3M''
   \<and> formatNumber eng (Num 1000) = Inr ''1k''
   \<and> toFixed1 (Number_div 1000 1000) = ''1.0''"
  by (simp add: exact_integer_def formatNumber_num_950 formatNumber_num_1500
        formatNumber_num_2300000 formatNumber_num_1000 toFixed1_1000)

section \<open>Properties of the pagination aggregator\<close>

lemma download_pages_stop:
  "download_page eng (server page) tot = Inl e
     \<Longrightarrow> download_pages eng server page tot fetched = (Inl e, fetched @ [page])"
  by (subst download_pages.simps) simp

lemma download_pages_last:
  "download_page eng (server page) tot = Inr (tot', hasMore) \<Longrightarrow> \<not> hasMore \<or> 20 \<le> page
     \<Longrightarrow> download_pages eng server page tot fetched = (Inr tot', fetched @ [page])"
  by (subst download_pages.simps) auto

lemma download_pages_next:
  "download_page eng (server page) tot = Inr (tot', True) \<Longrightarrow> page < 20
     \<Longrightarrow> download_pages eng server page tot fetched =
         download_pages eng server (page + 1) tot' (fetched @ [page])"
  by (subst download_pages.simps) simp

lemma download_pages_length:
  "1 \<le> page \<Longrightarrow> page \<le> 20
     \<Longrightarrow> length (snd (download_pages eng server page tot fetched)) \<le> length fetched + (21 - page)"
proof (induction eng server page tot fetched rule: download_pages.induct)
  case (1 eng server page tot fetched)
  show ?case
  proof (cases "download_page eng (server page) tot")
    case (Inl e)
    then show ?thesis using "1.prems" by (simp add: download_pages_stop)
  next
    case (Inr r)
    obtain tot' hasMore where r: "r = (tot', hasMore)" by (cases r)
    show ?thesis
    proof (cases "hasMore \<and> \<not> page + 1 > 20")
      case True
      have "length (snd (download_pages eng server (page + 1) tot' (fetched @ [page])))
              \<le> length (fetched @ [page]) + (21 - (page + 1))"
        using "1.IH" [OF Inr r [symmetric] True] True by simp
      moreover have "download_pages eng server page tot fetched =
          download_pages eng server (page + 1) tot' (fetched @ [page])"
        using Inr r True download_pages_next [where server = server and page = page] by auto
      ultimately show ?thesis using "1.prems" by simp
    next
      case False
      then have "download_pages eng server page tot fetched = (Inr tot', fetched @ [page])"
        using Inr r download_pages_last [where server = server and page = page] by auto
      then show ?thesis using "1.prems" by simp
    qed
  qed
qed

text \<open>
  Claim C4. The loop of \<^verbatim>\<open>loadTotalDownloads\<close> is a total function of the server (its
  termination is proved with the measure \<open>21 - page\<close>), and whatever the server answers,
  with a next-page link on every page or not, it fetches at most 20 pages.
\<close>

theorem download_pages_bounded:
  "length (snd (download_pages eng server 1 (Num 0) [])) \<le> 20"
  using download_pages_length [of 1 eng server "Num 0" "[]"] by simp

lemma plus_exact: "exact_integer (a + b) \<Longrightarrow> plus eng (Num a) (Num b) = Inr (Num (a + b))"
proof -
  assume e: "exact_integer (a + b)"
  have "(2::int) ^ 53 < 2 ^ 1024" by (rule power_strict_increasing) simp_all
  then have "\<bar>a + b\<bar> < 2 ^ 1024" using e by (simp add: exact_integer_def)
  then show ?thesis using e by (simp add: to_double_def)
qed

lemma counters_sum_nonneg:
  "list_all (\<lambda>c. 0 \<le> counter_or_0 c) cs \<Longrightarrow> 0 \<le> sum_list (map counter_or_0 cs)"
  by (induction cs) simp_all

lemma release_downloads_nonneg:
  "(case r of None \<Rightarrow> True | Some cs \<Rightarrow> list_all (\<lambda>c. 0 \<le> counter_or_0 c) cs)
     \<Longrightarrow> 0 \<le> release_downloads r"
  by (cases r) (simp_all add: release_downloads_def counters_sum_nonneg)

lemma page_downloads_nonneg: "counters_nonneg rs \<Longrightarrow> 0 \<le> page_downloads rs"
  by (induction rs) (simp_all add: counters_nonneg_def page_downloads_def release_downloads_nonneg)

lemma add_assets_json:
  "0 \<le> t \<Longrightarrow> list_all (\<lambda>c. 0 \<le> counter_or_0 c) cs
     \<Longrightarrow> t + sum_list (map counter_or_0 cs) \<le> 2 ^ 53
     \<Longrightarrow> add_assets eng (map asset_json cs) (Num t) = Inr (Num (t + sum_list (map counter_or_0 cs)))"
proof (induction cs arbitrary: t)
  case Nil
  show ?case by simp
next
  case (Cons c cs)
  have c0: "0 \<le> counter_or_0 c" and rest: "list_all (\<lambda>c. 0 \<le> counter_or_0 c) cs"
    using Cons.prems(2) by simp_all
  have r0: "0 \<le> sum_list (map counter_or_0 cs)" using rest by (rule counters_sum_nonneg)
  have ex: "exact_integer (t + counter_or_0 c)"
    using Cons.prems(1,3) c0 r0 by (simp add: exact_integer_def)
  define x where "x = (case c of None \<Rightarrow> Undefined | Some n \<Rightarrow> Num n)"
  have gp: "get_prop (asset_json c) ''download_count'' = Inr x"
    by (cases c) (simp_all add: asset_json_def x_def)
  have v: "or_else x (Num 0) = Num (counter_or_0 c)"
    by (cases c) (simp_all add: or_else_def counter_or_0_def x_def)
  have pl: "plus eng (Num t) (Num (counter_or_0 c)) = Inr (Num (t + counter_or_0 c))"
    by (rule plus_exact [OF ex])
  have IH: "add_assets eng (map asset_json cs) (Num (t + counter_or_0 c)) =
      Inr (Num (t + counter_or_0 c + sum_list (map counter_or_0 cs)))"
    using Cons.prems(1,3) c0 rest by (intro Cons.IH) (simp_all add: add.assoc)
  show ?case
    by (simp add: gp bind_def v pl IH add.assoc del: plus.simps)
qed

lemma add_releases_json:
  "0 \<le> t \<Longrightarrow> counters_nonneg rs \<Longrightarrow> t + page_downloads rs \<le> 2 ^ 53
     \<Longrightarrow> add_releases eng (map release_json rs) (Num t) = Inr (Num (t + page_downloads rs))"
proof (induction rs arbitrary: t)
  case Nil
  show ?case by (simp add: page_downloads_def)
next
  case (Cons r rs)
  have r1: "case r of None \<Rightarrow> True | Some cs \<Rightarrow> list_all (\<lambda>c. 0 \<le> counter_or_0 c) cs"
    and rest: "counters_nonneg rs"
    using Cons.prems(2) by (simp_all add: counters_nonneg_def)
  have d0: "0 \<le> release_downloads r" using r1 by (rule release_downloads_nonneg)
  have p0: "0 \<le> page_downloads rs" using rest by (rule page_downloads_nonneg)
  have pd: "page_downloads (r # rs) = release_downloads r + page_downloads rs"
    by (simp add: page_downloads_def)
  define cs0 where "cs0 = (case r of None \<Rightarrow> [] | Some cs \<Rightarrow> cs)"
  define a0 where "a0 = (case r of None \<Rightarrow> Undefined | Some cs \<Rightarrow> Arr (map asset_json cs))"
  have gp: "get_prop (release_json r) ''assets'' = Inr a0"
    by (cases r) (simp_all add: release_json_def a0_def)
  have it: "iterate (or_else a0 (Arr [])) = Inr (map asset_json cs0)"
    by (cases r) (simp_all add: or_else_def a0_def cs0_def)
  have rd: "release_downloads r = sum_list (map counter_or_0 cs0)"
    by (cases r) (simp_all add: release_downloads_def cs0_def)
  have a: "list_all (\<lambda>c. 0 \<le> counter_or_0 c) cs0"
    using r1 by (cases r) (simp_all add: cs0_def)
  have b: "t + sum_list (map counter_or_0 cs0) \<le> 2 ^ 53"
    using Cons.prems(3) p0 by (simp add: pd rd)
  have aa: "add_assets eng (map asset_json cs0) (Num t) = Inr (Num (t + release_downloads r))"
    using add_assets_json [OF Cons.prems(1) a b] by (simp add: rd)
  have IH: "add_releases eng (map release_json rs) (Num (t + release_downloads r)) =
      Inr (Num (t + release_downloads r + page_downloads rs))"
    using Cons.prems(1,3) d0 rest by (intro Cons.IH) (simp_all add: pd add.assoc)
  show ?case
    by (simp add: gp it aa IH bind_def pd add.assoc)
qed

lemma download_page_json:
  "0 \<le> t \<Longrightarrow> counters_nonneg rs \<Longrightarrow> t + page_downloads rs \<le> 2 ^ 53
     \<Longrightarrow> download_page eng (releases_response rs lnk) (Num t) =
         Inr (if rs = [] then (Num t, False) else (Num (t + page_downloads rs), has_next lnk))"
  by (simp add: download_page_def releases_response_def ok_def bind_def add_releases_json)

lemma pages_sum_nonneg:
  "(\<And>p. p \<in> set ps \<Longrightarrow> counters_nonneg (rel p))
     \<Longrightarrow> 0 \<le> (\<Sum>p\<leftarrow>ps. page_downloads (rel p))"
  by (induction ps) (simp_all add: page_downloads_nonneg)

lemma download_pages_typed:
  assumes pages: "\<forall>p. 1 \<le> p \<and> p \<le> k \<longrightarrow> server p = releases_response (rel p) (lnk p)"
    and more: "\<forall>p. 1 \<le> p \<and> p < k \<longrightarrow> rel p \<noteq> [] \<and> has_next (lnk p)"
    and last: "rel k = [] \<or> \<not> has_next (lnk k) \<or> k = 20"
    and k: "k \<le> 20"
    and nonneg: "\<forall>p. 1 \<le> p \<and> p \<le> k \<longrightarrow> counters_nonneg (rel p)"
  shows "1 \<le> j \<Longrightarrow> j \<le> k \<Longrightarrow> 0 \<le> t
     \<Longrightarrow> t + (\<Sum>p\<leftarrow>[j..<Suc k]. page_downloads (rel p)) \<le> 2 ^ 53
     \<Longrightarrow> download_pages eng server j (Num t) fetched =
       (Inr (Num (t + (\<Sum>p\<leftarrow>[j..<Suc k]. page_downloads (rel p)))), fetched @ [j..<Suc k])"
proof (induction "k - j" arbitrary: j t fetched)
  case 0
  then have jk: "j = k" by simp
  have sp: "server k = releases_response (rel k) (lnk k)" using pages 0 jk by simp
  have nk: "counters_nonneg (rel k)" using nonneg 0 jk by simp
  have bd: "t + page_downloads (rel k) \<le> 2 ^ 53" using "0.prems"(4) jk by simp
  have dp: "download_page eng (server k) (Num t) =
      Inr (Num (t + page_downloads (rel k)), rel k \<noteq> [] \<and> has_next (lnk k))"
    using "0.prems"(3) nk bd by (simp add: sp download_page_json page_downloads_def)
  have "download_pages eng server k (Num t) fetched =
      (Inr (Num (t + page_downloads (rel k))), fetched @ [k])"
    using last download_pages_last [where server = server and page = k, OF dp] by auto
  then show ?case by (simp add: jk)
next
  case (Suc n)
  then have jk: "j < k" by simp
  have up: "[j..<Suc k] = j # [j + 1..<Suc k]" using jk by (simp add: upt_conv_Cons)
  have sp: "server j = releases_response (rel j) (lnk j)" using pages Suc.prems by simp
  have good: "rel j \<noteq> [] \<and> has_next (lnk j)" using more Suc.prems jk by simp
  have nj: "counters_nonneg (rel j)" using nonneg Suc.prems by simp
  have pj: "0 \<le> page_downloads (rel j)" using nj by (rule page_downloads_nonneg)
  have rest0: "0 \<le> (\<Sum>p\<leftarrow>[j + 1..<Suc k]. page_downloads (rel p))"
    using nonneg Suc.prems(1) by (intro pages_sum_nonneg) auto
  have split: "t + (\<Sum>p\<leftarrow>[j..<Suc k]. page_downloads (rel p)) =
      t + page_downloads (rel j) + (\<Sum>p\<leftarrow>[j + 1..<Suc k]. page_downloads (rel p))"
    by (simp only: up list.map sum_list.Cons add.assoc)
  have total: "t + page_downloads (rel j) + (\<Sum>p\<leftarrow>[j + 1..<Suc k]. page_downloads (rel p)) \<le> 2 ^ 53"
    using Suc.prems(4) by (simp only: split)
  have bd: "t + page_downloads (rel j) \<le> 2 ^ 53" using total rest0 by linarith
  have dp: "download_page eng (server j) (Num t) = Inr (Num (t + page_downloads (rel j)), True)"
    using good Suc.prems(3) nj bd by (simp add: sp download_page_json)
  have step: "download_pages eng server j (Num t) fetched =
      download_pages eng server (j + 1) (Num (t + page_downloads (rel j))) (fetched @ [j])"
    using jk k download_pages_next [where server = server and page = j, OF dp] by simp
  have n: "n = k - (j + 1)" using Suc.hyps(2) by simp
  have IH: "download_pages eng server (j + 1) (Num (t + page_downloads (rel j))) (fetched @ [j]) =
      (Inr (Num (t + page_downloads (rel j) + (\<Sum>p\<leftarrow>[j + 1..<Suc k]. page_downloads (rel p)))),
       (fetched @ [j]) @ [j + 1..<Suc k])"
  proof (rule Suc.hyps(1) [OF n])
    show "1 \<le> j + 1" by simp
    show "j + 1 \<le> k" using jk by simp
    show "0 \<le> t + page_downloads (rel j)" using Suc.prems(3) pj by simp
    show "t + page_downloads (rel j) + (\<Sum>p\<leftarrow>[j + 1..<Suc k]. page_downloads (rel p)) \<le> 2 ^ 53"
      by (rule total)
  qed
  show ?case
    unfolding step IH
    by (simp only: up list.map sum_list.Cons add.assoc append_assoc append.simps)
qed

lemma has_next_link: "has_next (Some next_link)"
  by (simp add: has_next_def next_link_def rel_next_def sublist_code)

lemma to_double_above_53: "to_double 9007199254740993 = 9007199254740992"
  by code_simp

text \<open>
  Claim C3 as the specification states it fails: the total is a double, and a sum beyond
  \<open>2 ^ 53\<close> is rounded. For one page with the counters \<open>2 ^ 53\<close>, 1 and 1 the loop
  returns \<open>2 ^ 53\<close>, since each of the two additions of 1 is rounded back, and the exact
  sum is \<open>2 ^ 53 + 2\<close>.
\<close>

theorem download_total_rounded_counterexample:
  "download_pages sample_engine huge_server 1 (Num 0) [] = (Inr (Num 9007199254740992), [1])
   \<and> page_downloads [Some [Some 9007199254740992, Some 1, Some 1]] = 9007199254740994"
proof -
  have small: "(9007199254740992::int) < 2 ^ 1024"
  proof -
    have "(2::int) ^ 53 < 2 ^ 1024" by (rule power_strict_increasing) simp_all
    then show ?thesis by simp
  qed
  have p0: "plus sample_engine (Num 0) (Num 9007199254740992) = Inr (Num 9007199254740992)"
    using plus_exact [of 0 9007199254740992 sample_engine] by (simp add: exact_integer_def)
  have p1: "plus sample_engine (Num 9007199254740992) (Num 1) = Inr (Num 9007199254740992)"
    using small by (simp add: to_double_above_53)
  have dp: "download_page sample_engine (huge_server 1) (Num 0) = Inr (Num 9007199254740992, False)"
    by (simp add: download_page_def huge_server_def releases_response_def ok_def bind_def
          release_json_def asset_json_def or_else_def has_next_def p0 p1 del: plus.simps)
  have "download_pages sample_engine huge_server 1 (Num 0) [] =
      (Inr (Num 9007199254740992), [] @ [1])"
    by (rule download_pages_last [where server = huge_server and page = 1, OF dp]) simp
  then show ?thesis
    by (simp add: page_downloads_def release_downloads_def counter_or_0_def)
qed

text \<open>
  Claim C3, amended. Let the server answer the pages 1 to \<open>k\<close> (\<open>k \<le> 20\<close>) with release
  listings whose counters are not negative and sum to at most \<open>2 ^ 53\<close>, the pages before
  \<open>k\<close> non-empty and carrying the next-page link, and page \<open>k\<close> empty, or without the
  link, or the twentieth. Then the loop fetches exactly the pages 1 to \<open>k\<close> and returns
  the sum of the download counters of all assets of all releases of these pages, a
  missing counter or a missing asset list adding 0. So an empty page ends the loop at
  once, and a page without the link ends it however many releases the page has.
\<close>

theorem download_total_exact:
  assumes "1 \<le> k" and "k \<le> 20"
    and "\<forall>p. 1 \<le> p \<and> p \<le> k \<longrightarrow> server p = releases_response (rel p) (lnk p)"
    and "\<forall>p. 1 \<le> p \<and> p < k \<longrightarrow> rel p \<noteq> [] \<and> has_next (lnk p)"
    and "rel k = [] \<or> \<not> has_next (lnk k) \<or> k = 20"
    and "\<forall>p. 1 \<le> p \<and> p \<le> k \<longrightarrow> counters_nonneg (rel p)"
    and "(\<Sum>p\<leftarrow>[1..<Suc k]. page_downloads (rel p)) \<le> 2 ^ 53"
  shows "download_pages eng server 1 (Num 0) [] =
           (Inr (Num (\<Sum>p\<leftarrow>[1..<Suc k]. page_downloads (rel p))), [1..<Suc k])"
  using download_pages_typed [OF assms(3) assms(4) assms(5) assms(2) assms(6), of 1 0 eng "[]"]
    assms(1) assms(7)
  by simp

theorem download_total_exact_witness:
  "counters_nonneg (sample_releases 1)
   \<and> (\<Sum>p\<leftarrow>[1, 2, 3, 4]. page_downloads (sample_releases p)) = 21
   \<and> download_pages sample_engine sample_server 1 (Num 0) [] = (Inr (Num 21), [1, 2, 3, 4])
   \<and> download_pages sample_engine single_page_server 1 (Num 0) [] = (Inr (Num 15), [1])"
proof -
  have four: "[1..<Suc 4] = [1, 2, 3, 4::nat]" by (simp add: upt_rec)
  have one: "[1..<Suc 1] = [1::nat]" by simp
  have n: "\<And>p. counters_nonneg (sample_releases p)"
    by (simp add: counters_nonneg_def sample_releases_def counter_or_0_def)
  have s: "(\<Sum>p\<leftarrow>[1, 2, 3, 4]. page_downloads (sample_releases p)) = 21"
    by (simp add: sample_releases_def page_downloads_def release_downloads_def counter_or_0_def)
  have a: "download_pages sample_engine sample_server 1 (Num 0) [] =
      (Inr (Num (\<Sum>p\<leftarrow>[1..<Suc 4]. page_downloads (sample_releases p))), [1..<Suc 4])"
  proof (rule download_total_exact [where lnk = sample_links])
    show "(1::nat) \<le> 4" and "(4::nat) \<le> 20" by simp_all
    show "\<forall>p. 1 \<le> p \<and> p \<le> 4 \<longrightarrow>
            sample_server p = releases_response (sample_releases p) (sample_links p)"
      by (simp add: sample_server_def)
    show "\<forall>p. 1 \<le> p \<and> p < 4 \<longrightarrow> sample_releases p \<noteq> [] \<and> has_next (sample_links p)"
      by (simp add: sample_releases_def sample_links_def has_next_link)
    show "sample_releases 4 = [] \<or> \<not> has_next (sample_links 4) \<or> (4::nat) = 20"
      by (simp add: sample_releases_def)
    show "\<forall>p. 1 \<le> p \<and> p \<le> 4 \<longrightarrow> counters_nonneg (sample_releases p)"
      by (simp add: n)
    show "(\<Sum>p\<leftarrow>[1..<Suc 4]. page_downloads (sample_releases p)) \<le> 2 ^ 53"
      unfolding four by (simp only: s) simp
  qed
  have b: "download_pages sample_engine single_page_server 1 (Num 0) [] =
      (Inr (Num (\<Sum>p\<leftarrow>[1..<Suc 1]. page_downloads ((\<lambda>p. [Some [Some 7, Some 8]]) p))), [1..<Suc 1])"
  proof (rule download_total_exact [where lnk = "\<lambda>p. None"])
    show "(1::nat) \<le> 1" and "(1::nat) \<le> 20" by simp_all
    show "\<forall>p::nat. 1 \<le> p \<and> p \<le> 1 \<longrightarrow>
            single_page_server p = releases_response [Some [Some 7, Some 8]] None"
      by (simp add: single_page_server_def)
    show "\<forall>p::nat. 1 \<le> p \<and> p < 1 \<longrightarrow> [Some [Some 7, Some (8::int)]] \<noteq> [] \<and> has_next None"
      by auto
    show "[Some [Some 7, Some (8::int)]] = [] \<or> \<not> has_next None \<or> (1::nat) = 20"
      by (simp add: has_next_def)
    show "\<forall>p. 1 \<le> p \<and> p \<le> (1::nat) \<longrightarrow> counters_nonneg [Some [Some 7, Some 8]]"
      by (simp add: counters_nonneg_def counter_or_0_def)
    show "(\<Sum>p\<leftarrow>[1..<Suc 1]. page_downloads [Some [Some 7, Some 8]]) \<le> 2 ^ 53"
      unfolding one by (simp add: page_downloads_def release_downloads_def counter_or_0_def)
  qed
  show ?thesis
    using a b n [of 1] s unfolding four one
    by (simp add: page_downloads_def release_downloads_def counter_or_0_def)
qed

section \<open>Properties of the commit normalization\<close>

lemma commit_summary_json: "commit_summary (commit_json rc) = Inr (summary_of rc)"
  by (cases "raw_account rc")
     (auto simp: commit_summary_def commit_json_def summary_of_def bind_def or_else_def)

lemma map_throwing_map:
  "(\<And>x. f (h x) = Inr (g x)) \<Longrightarrow> map_throwing f (map h xs) = Inr (map g xs)"
  by (induction xs) (simp_all add: bind_def)

text \<open>
  Claim C5 as the specification states it fails: the normalization has one entry for each
  commit of the response, so a response with one commit gives one entry, not 8. The
  request asks the server for 8 commits per page; the code neither cuts nor fills the list.
\<close>

theorem commits_length_counterexample:
  "normalize_commits (Arr [commit_json sample_commit]) =
     Inr (Arr [Obj [(''sha'', Str ''0123456''),
                    (''message'', Str ''Fix scan of packed files''),
                    (''date'', Str ''2026-01-05T10:00:00Z''),
                    (''author'', Str ''A. Committer''),
                    (''avatar'', Null)]])
   \<and> length [commit_json sample_commit] \<noteq> 8"
  by (simp add: normalize_commits_def commit_summary_def commit_json_def sample_commit_def
        bind_def or_else_def)

text \<open>
  Claim C5, amended. For every commit-list response, the normalization produces one entry
  for each commit of the response, in the order of the response; the hash of an entry is
  the raw hash cut to 7 characters, its message the first line of the raw message cut to
  80 characters, its author the login of the linked account when there is one and the
  name of the commit author otherwise.
\<close>

theorem commits_normalized:
  "normalize_commits (Arr (map commit_json rcs)) = Inr (Arr (map summary_of rcs))
   \<and> length (map summary_of rcs) = length rcs"
  by (simp add: normalize_commits_def bind_def
        map_throwing_map [where f = commit_summary and h = commit_json and g = summary_of]
        commit_summary_json)

section \<open>Properties of the numeric render targets\<close>

lemma fold_swap_timers: "timers (fold swap_text ts q) = timers q"
  by (induction ts arbitrary: q) (simp_all add: swap_text_def split: option.splits)

lemma swap_text_other: "i \<noteq> fst t \<Longrightarrow> elements (swap_text t q) i = elements q i"
  by (simp add: swap_text_def split: option.splits)

lemma swap_text_dom: "(elements (swap_text t q) i = None) = (elements q i = None)"
  by (simp add: swap_text_def split: option.splits)

lemma fold_swap_other:
  "i \<notin> fst ` set ts \<Longrightarrow> elements (fold swap_text ts q) i = elements q i"
  by (induction ts arbitrary: q) (auto simp: swap_text_other)

lemma fold_swap_dom: "(elements (fold swap_text ts q) i = None) = (elements q i = None)"
  by (induction ts arbitrary: q) (simp_all add: swap_text_dom)

lemma updateEl_same:
  "(\<And>el. elements q i = Some el \<Longrightarrow> textContent el = v) \<Longrightarrow> updateEl i v q = q"
  by (auto simp: updateEl_def split: option.splits)

text \<open>
  Claim C7 as the specification states it fails: \<^verbatim>\<open>updateEl\<close> compares the new value
  with the text that the element shows, and the text is swapped only 150 ms after the
  call. A second call with the same value that comes before the swap finds the old text,
  so it starts the fade again and schedules a second swap.
\<close>

theorem updateEl_twice_counterexample:
  "timers (updateEl ''hero-stars'' ''10.2k+'' stats_page) = [(''hero-stars'', ''10.2k+'')]
   \<and> timers (updateEl ''hero-stars'' ''10.2k+'' (updateEl ''hero-stars'' ''10.2k+'' stats_page))
       = [(''hero-stars'', ''10.2k+''), (''hero-stars'', ''10.2k+'')]"
  by (simp add: updateEl_def stats_page_def fresh_page_def text_element_def)

text \<open>
  Claim C7, amended. If the new value equals the text that the element shows,
  \<^verbatim>\<open>updateEl\<close> returns with the page as it was: no text changed, no fade started. When
  it is called twice with the same value on an element that has no swap pending before
  the first call, and the swap of the first call has run before the second, the second
  call changes nothing.
\<close>

theorem updateEl_idempotent:
  "(elements p ident = Some el \<longrightarrow> textContent el = val \<longrightarrow> updateEl ident val p = p)
   \<and> (ident \<notin> fst ` set (timers p) \<longrightarrow>
        updateEl ident val (run_timers (updateEl ident val p)) = run_timers (updateEl ident val p))"
proof (intro conjI impI)
  assume "elements p ident = Some el" "textContent el = val"
  then show "updateEl ident val p = p" by (simp add: updateEl_def)
next
  assume free: "ident \<notin> fst ` set (timers p)"
  show "updateEl ident val (run_timers (updateEl ident val p)) = run_timers (updateEl ident val p)"
  proof (rule updateEl_same)
    fix el' assume el': "elements (run_timers (updateEl ident val p)) ident = Some el'"
    show "textContent el' = val"
    proof (cases "elements p ident")
      case None
      then have "updateEl ident val p = p" by (simp add: updateEl_def)
      then have "elements (run_timers (updateEl ident val p)) ident = None"
        using None by (simp add: run_timers_def fold_swap_dom)
      with el' show ?thesis by simp
    next
      case (Some el0)
      show ?thesis
      proof (cases "textContent el0 = val")
        case True
        then have "updateEl ident val p = p" using Some by (simp add: updateEl_def)
        then have "elements (run_timers (updateEl ident val p)) ident = Some el0"
          using Some free by (simp add: run_timers_def fold_swap_other)
        with el' True show ?thesis by simp
      next
        case False
        define q where "q = fold swap_text (timers p)
           (p\<lparr>elements := (elements p)(ident \<mapsto>
                    el0\<lparr>transition := ''transform 0.3s ease, opacity 0.3s ease'',
                       transform := ''scale(0.85)'',
                       opacity := ''0''\<rparr>), timers := []\<rparr>)"
        have r: "run_timers (updateEl ident val p) = swap_text (ident, val) q"
          using Some False by (simp add: run_timers_def updateEl_def q_def)
        have "elements q ident \<noteq> None" by (simp add: q_def fold_swap_dom)
        then obtain e where "elements q ident = Some e" by blast
        then have "elements (swap_text (ident, val) q) ident
                     = Some (e\<lparr>textContent := val, transform := ''scale(1)'', opacity := ''1''\<rparr>)"
          by (simp add: swap_text_def)
        with el' r show ?thesis by auto
      qed
    qed
  qed
qed

theorem updateEl_idempotent_witness:
  "elements shown_page ''hero-stars'' = Some (text_element ''10.2k+'')
   \<and> textContent (text_element ''10.2k+'') = ''10.2k+''
   \<and> updateEl ''hero-stars'' ''10.2k+'' shown_page = shown_page
   \<and> ''hero-stars'' \<notin> fst ` set (timers stats_page)
   \<and> updateEl ''hero-stars'' ''10.2k+'' (run_timers (updateEl ''hero-stars'' ''10.2k+'' stats_page))
       = run_timers (updateEl ''hero-stars'' ''10.2k+'' stats_page)
   \<and> timers (run_timers (updateEl ''hero-stars'' ''10.2k+'' stats_page)) = []"
  using updateEl_idempotent [of shown_page "''hero-stars''" "text_element ''10.2k+''" "''10.2k+''"]
    updateEl_idempotent [of stats_page "''hero-stars''" "text_element ''0''" "''10.2k+''"]
  by (simp add: shown_page_def stats_page_def fresh_page_def text_element_def
        run_timers_def fold_swap_timers)

section \<open>Properties of the loads\<close>

lemma formatNumber_num_10200: "formatNumber_num 10200 = ''10.2k''"
  by code_simp
lemma formatNumber_num_879: "formatNumber_num 879 = ''879''"
  by code_simp
lemma formatNumber_num_1000000: "formatNumber_num 1000000 = ''1M''"
  by code_simp
lemma toLocaleString_num_10200: "toLocaleString_num 10200 = ''10,200''"
  by (simp add: toLocaleString_num_def pad3_def digit_def grouped.simps decimal.simps)
lemma toLocaleString_num_879: "toLocaleString_num 879 = ''879''"
  by (simp add: toLocaleString_num_def pad3_def digit_def grouped.simps decimal.simps)
lemma toLocaleString_num_168: "toLocaleString_num 168 = ''168''"
  by (simp add: toLocaleString_num_def pad3_def digit_def grouped.simps decimal.simps)
lemma toLocaleString_num_1000000: "toLocaleString_num 1000000 = ''1,000,000''"
  by (simp add: toLocaleString_num_def pad3_def digit_def grouped.simps decimal.simps)
lemma Number_toString_0: "Number_toString 0 = ''0''"
  by code_simp

lemma renderRepoStats_fallback:
  "renderRepoStats eng (q\<lparr>repoStats := repo_stats_fallback\<rparr>) = (None, stats_fallback_rendered q)"
  by (simp add: renderRepoStats_def repo_stats_fallback_def stats_fallback_rendered_def
        and_then_def update_with_def bind_def exact_integer_def
        formatNumber_num_10200 formatNumber_num_879 toLocaleString_num_10200
        toLocaleString_num_879 toLocaleString_num_168 Number_toString_0)

lemma renderDownloads_fallback:
  "renderDownloads eng (q\<lparr>totalDownloads := Num 1000000\<rparr>) = (None, downloads_fallback_rendered q)"
  by (simp add: renderDownloads_def downloads_fallback_rendered_def exact_integer_def
        and_then_def update_with_def bind_def formatNumber_num_1000000 toLocaleString_num_1000000)

lemma CacheManager_get_page:
  "snd (CacheManager_get eng now key p) = looked_up eng now key p"
  by (simp add: CacheManager_get_def looked_up_def split: sum.splits option.splits bool.splits)

lemma failed_bind: "failed resp \<Longrightarrow> \<exists>e. bind (fetch_json resp) f = Inl e"
  by (auto simp: failed_def bind_def split: sum.splits)

lemma storage_updateEl: "storage (updateEl i v q) = storage q"
  by (simp add: updateEl_def split: option.splits)

lemma storage_update_with: "storage (snd (update_with i t q)) = storage q"
  by (simp add: update_with_def storage_updateEl split: sum.splits)

lemma storage_set_innerHTML: "storage (snd (set_innerHTML i h q)) = storage q"
  by (simp add: set_innerHTML_def split: sum.splits option.splits)

lemma storage_and_then:
  assumes "\<And>q. storage (snd (f q)) = storage q" and "\<And>q. storage (snd (g q)) = storage q"
  shows "storage (snd (and_then f g q)) = storage q"
proof -
  obtain e q1 where f: "f q = (e, q1)" by (cases "f q")
  have 1: "storage q1 = storage q" using assms(1) [of q] f by simp
  show ?thesis
  proof (cases e)
    case None
    then show ?thesis using f 1 assms(2) [of q1] by (simp add: and_then_def)
  next
    case (Some x)
    then show ?thesis using f 1 by (simp add: and_then_def)
  qed
qed

lemma storage_renderRepoStats: "storage (snd (renderRepoStats eng q)) = storage q"
  by (simp add: renderRepoStats_def Let_def storage_and_then storage_update_with)

lemma storage_renderDownloads: "storage (snd (renderDownloads eng q)) = storage q"
  by (simp add: renderDownloads_def storage_and_then storage_update_with)

lemma storage_renderCommits: "storage (snd (renderCommits eng now q)) = storage q"
  by (simp add: renderCommits_def storage_set_innerHTML)

lemma storage_renderContributors: "storage (snd (renderContributors eng q)) = storage q"
  by (simp add: renderContributors_def storage_set_innerHTML)

lemma storage_renderLanguages: "storage (snd (renderLanguages eng q)) = storage q"
  by (simp add: renderLanguages_def storage_and_then storage_set_innerHTML)

lemma storage_renderLatestRelease: "storage (snd (renderLatestRelease eng now q)) = storage q"
  by (simp add: renderLatestRelease_def split: option.splits sum.splits)

lemma getItem_setItem_other:
  "setItem st key v = Inr st' \<Longrightarrow> k \<noteq> key \<Longrightarrow> getItem st' k = getItem st k"
  by (cases st) (auto simp: update_conv' split: if_splits)

lemma getItem_set_other:
  "k \<noteq> CACHE_PREFIX @ key
     \<Longrightarrow> getItem (storage (CacheManager_set now key v q)) k = getItem (storage q) k"
  by (auto simp: CacheManager_set_def Utils_log_id getItem_setItem_other split: sum.splits)

lemma getItem_looked_up_other:
  "k \<noteq> CACHE_PREFIX @ key
     \<Longrightarrow> getItem (storage (looked_up eng now key q)) k = getItem (storage q) k"
  by (auto simp: looked_up_def CacheManager_get_def getItem_removeItem_other
      split: sum.splits option.splits bool.splits)


lemma storage_try_catch:
  assumes "\<And>q. getItem (storage (snd (f q))) k = getItem (storage q) k"
    and "\<And>e q. getItem (storage (snd (h e q))) k = getItem (storage q) k"
  shows "getItem (storage (snd (try_catch f h q))) k = getItem (storage q) k"
proof -
  obtain e q1 where b: "f q = (e, q1)" by (cases "f q")
  have 1: "getItem (storage q1) k = getItem (storage q) k" using assms(1) [of q] b by simp
  show ?thesis
  proof (cases e)
    case None
    then show ?thesis using b 1 by (simp add: try_catch_def)
  next
    case (Some x)
    then show ?thesis using b 1 assms(2) [of x q1] by (simp add: try_catch_def)
  qed
qed

lemma loadRepoStats_frame:
  assumes "k \<noteq> CACHE_PREFIX @ ''repo_stats''"
  shows "getItem (storage (snd (loadRepoStats eng now resp p))) k = getItem (storage p) k"
  using assms
  by (simp add: loadRepoStats_def Let_def case_prod_beta CacheManager_get_page
        storage_renderRepoStats getItem_looked_up_other storage_try_catch getItem_set_other
        Utils_log_id split: sum.splits)

lemma loadTotalDownloads_frame:
  assumes "k \<noteq> CACHE_PREFIX @ ''total_downloads''"
  shows "getItem (storage (snd (loadTotalDownloads eng now server p))) k = getItem (storage p) k"
  using assms
  by (simp add: loadTotalDownloads_def Let_def case_prod_beta CacheManager_get_page
        storage_renderDownloads getItem_looked_up_other storage_try_catch getItem_set_other
        Utils_log_id split: sum.splits)

lemma loadCommits_frame:
  assumes "k \<noteq> CACHE_PREFIX @ ''commits''"
  shows "getItem (storage (snd (loadCommits eng now resp p))) k = getItem (storage p) k"
  using assms
  by (simp add: loadCommits_def Let_def case_prod_beta CacheManager_get_page
        storage_renderCommits getItem_looked_up_other storage_try_catch getItem_set_other
        Utils_log_id split: sum.splits)

lemma loadContributors_frame:
  assumes "k \<noteq> CACHE_PREFIX @ ''contributors''"
  shows "getItem (storage (snd (loadContributors eng now resp p))) k = getItem (storage p) k"
  using assms
  by (simp add: loadContributors_def Let_def case_prod_beta CacheManager_get_page
        storage_renderContributors getItem_looked_up_other storage_try_catch getItem_set_other
        Utils_log_id split: sum.splits)

lemma loadLanguages_frame:
  assumes "k \<noteq> CACHE_PREFIX @ ''languages''"
  shows "getItem (storage (snd (loadLanguages eng now resp p))) k = getItem (storage p) k"
  using assms
  by (simp add: loadLanguages_def Let_def case_prod_beta CacheManager_get_page
        storage_renderLanguages getItem_looked_up_other storage_try_catch getItem_set_other
        Utils_log_id split: sum.splits)









lemma snd_also_run: "snd (also_run load r) = snd (load (snd r))"
  by (simp add: also_run_def split: prod.splits option.splits)


lemma offline_download: "download_pages eng offline_server 1 (Num 0) [] = (Inl NetworkError, [1])"
  using download_pages_stop [where server = offline_server and page = 1 and eng = eng
      and tot = "Num 0" and e = NetworkError and fetched = "[]"]
  by (simp add: download_page_def offline_server_def bind_def)

lemma get_empty_store:
  "CacheManager_get eng now key (fresh_page empty_store els) = (Null, fresh_page empty_store els)"
  by (simp add: CacheManager_get_def fresh_page_def empty_store_def)

lemma loadTotalDownloads_failed:
  "fst (download_pages eng server 1 (Num 0) []) = Inl e
     \<Longrightarrow> fst (CacheManager_get eng now ''total_downloads'' p) = Null
     \<Longrightarrow> loadTotalDownloads eng now server p
           = (None, downloads_fallback_rendered (looked_up eng now ''total_downloads'' p))"
  by (simp add: loadTotalDownloads_def Let_def case_prod_beta CacheManager_get_page try_catch_def
        Utils_log_id renderDownloads_fallback)

lemma looked_up_empty_store:
  "looked_up eng now key (fresh_page empty_store els) = fresh_page empty_store els"
  using CacheManager_get_page [of eng now key "fresh_page empty_store els"]
  by (simp add: get_empty_store)

lemma all_miss_empty_store: "all_miss eng now (fresh_page empty_store els)"
  by (simp add: all_miss_def get_empty_store)

text \<open>
  Claim C2 as the specification states it fails: the download total has a fallback of its
  own. When the release listing cannot be fetched, \<^verbatim>\<open>loadTotalDownloads\<close> puts 1000000
  in and renders it, so the render state does not stay as it was.
\<close>

theorem downloads_fallback_counterexample:
  "timers dashboard = []
   \<and> timers (snd (loadTotalDownloads sample_engine 0 offline_server dashboard))
       = [(''hero-downloads'', ''1M+''), (''detailed-downloads'', ''1,000,000'')]
   \<and> totalDownloads (snd (loadTotalDownloads sample_engine 0 offline_server dashboard))
       = Num 1000000"
proof -
  have "loadTotalDownloads sample_engine 0 offline_server dashboard
          = (None, downloads_fallback_rendered dashboard)"
  proof -
    have d: "fst (download_pages sample_engine offline_server 1 (Num 0) []) = Inl NetworkError"
      by (simp only: offline_download fst_conv)
    have m: "fst (CacheManager_get sample_engine 0 ''total_downloads'' dashboard) = Null"
      by (simp add: dashboard_def get_empty_store)
    show ?thesis
      using loadTotalDownloads_failed [OF d m]
      by (simp add: dashboard_def looked_up_empty_store)
  qed
  then show ?thesis
    by (simp add: downloads_fallback_rendered_def updateEl_def dashboard_def fresh_page_def
          text_element_def)
qed

text \<open>
  Claim C2, amended. On a network or parse failure, with nothing usable in the cache, the
  repository statistics and the download total each put a fixed fallback value in and
  render it (10200, 879, 168 and 0; 1000000); the four other categories (commits,
  contributors, languages, latest release) leave the fields, the elements, the pending
  swaps and the console as they were. All that may differ is the store, from which the
  lookup before the fetch has dropped a stale entry.
\<close>

theorem fallback_only_for_stats_and_downloads:
  assumes "failed resp" and "fst (download_pages eng server 1 (Num 0) []) = Inl e"
  shows "(\<not> truthy (fst (CacheManager_get eng now ''repo_stats'' p)) \<longrightarrow>
            loadRepoStats eng now resp p
              = (None, stats_fallback_rendered (looked_up eng now ''repo_stats'' p)))
       \<and> (fst (CacheManager_get eng now ''total_downloads'' p) = Null \<longrightarrow>
            loadTotalDownloads eng now server p
              = (None, downloads_fallback_rendered (looked_up eng now ''total_downloads'' p)))
       \<and> (\<not> truthy (fst (CacheManager_get eng now ''commits'' p)) \<longrightarrow>
            loadCommits eng now resp p = (None, looked_up eng now ''commits'' p))
       \<and> (\<not> truthy (fst (CacheManager_get eng now ''contributors'' p)) \<longrightarrow>
            loadContributors eng now resp p = (None, looked_up eng now ''contributors'' p))
       \<and> (\<not> truthy (fst (CacheManager_get eng now ''languages'' p)) \<longrightarrow>
            loadLanguages eng now resp p = (None, looked_up eng now ''languages'' p))
       \<and> (\<not> truthy (fst (CacheManager_get eng now ''latest_release'' p)) \<longrightarrow>
            loadLatestRelease eng now resp p = (None, looked_up eng now ''latest_release'' p))"
proof -
  have f: "\<And>g. \<exists>x. bind (fetch_json resp) g = Inl x"
    using assms(1) by (rule failed_bind)
  obtain e1 where e1: "bind (fetch_json resp) repo_stats_of = Inl e1" using f by blast
  obtain e3 where e3: "bind (fetch_json resp) normalize_commits = Inl e3" using f by blast
  obtain e4 where e4: "bind (fetch_json resp) normalize_contributors = Inl e4" using f by blast
  obtain e5 where e5: "bind (fetch_json resp) (normalize_languages eng) = Inl e5" using f by blast
  obtain e6 where e6: "bind (fetch_json resp) release_info = Inl e6" using f by blast
  have 1: "\<not> truthy (fst (CacheManager_get eng now ''repo_stats'' p)) \<longrightarrow>
            loadRepoStats eng now resp p
              = (None, stats_fallback_rendered (looked_up eng now ''repo_stats'' p))"
    by (simp add: loadRepoStats_def Let_def case_prod_beta CacheManager_get_page try_catch_def e1
          Utils_log_id renderRepoStats_fallback)
  have 2: "fst (CacheManager_get eng now ''total_downloads'' p) = Null \<longrightarrow>
            loadTotalDownloads eng now server p
              = (None, downloads_fallback_rendered (looked_up eng now ''total_downloads'' p))"
    using assms(2) by (simp add: loadTotalDownloads_failed)
  have 3: "\<not> truthy (fst (CacheManager_get eng now ''commits'' p)) \<longrightarrow>
            loadCommits eng now resp p = (None, looked_up eng now ''commits'' p)"
    by (simp add: loadCommits_def Let_def case_prod_beta CacheManager_get_page try_catch_def e3
          Utils_log_id)
  have 4: "\<not> truthy (fst (CacheManager_get eng now ''contributors'' p)) \<longrightarrow>
            loadContributors eng now resp p = (None, looked_up eng now ''contributors'' p)"
    by (simp add: loadContributors_def Let_def case_prod_beta CacheManager_get_page try_catch_def e4
          Utils_log_id)
  have 5: "\<not> truthy (fst (CacheManager_get eng now ''languages'' p)) \<longrightarrow>
            loadLanguages eng now resp p = (None, looked_up eng now ''languages'' p)"
    by (simp add: loadLanguages_def Let_def case_prod_beta CacheManager_get_page try_catch_def e5
          Utils_log_id)
  have 6: "\<not> truthy (fst (CacheManager_get eng now ''latest_release'' p)) \<longrightarrow>
            loadLatestRelease eng now resp p = (None, looked_up eng now ''latest_release'' p)"
    by (simp add: loadLatestRelease_def Let_def case_prod_beta CacheManager_get_page try_catch_def e6
          Utils_log_id)
  from 1 2 3 4 5 6 show ?thesis by blast
qed

theorem fallback_only_for_stats_and_downloads_witness:
  "failed NetworkFailure
   \<and> fst (download_pages sample_engine offline_server 1 (Num 0) []) = Inl NetworkError
   \<and> all_miss sample_engine 0 dashboard
   \<and> loadRepoStats sample_engine 0 NetworkFailure dashboard
       = (None, stats_fallback_rendered dashboard)
   \<and> loadTotalDownloads sample_engine 0 offline_server dashboard
       = (None, downloads_fallback_rendered dashboard)
   \<and> loadCommits sample_engine 0 NetworkFailure dashboard = (None, dashboard)
   \<and> loadContributors sample_engine 0 NetworkFailure dashboard = (None, dashboard)
   \<and> loadLanguages sample_engine 0 NetworkFailure dashboard = (None, dashboard)
   \<and> loadLatestRelease sample_engine 0 NetworkFailure dashboard = (None, dashboard)"
proof -
  have f: "failed NetworkFailure" by (simp add: failed_def)
  have d: "fst (download_pages sample_engine offline_server 1 (Num 0) []) = Inl NetworkError"
    by (simp only: offline_download fst_conv)
  have m: "all_miss sample_engine 0 dashboard"
    by (simp add: dashboard_def all_miss_empty_store)
  have n: "\<And>key. fst (CacheManager_get sample_engine 0 key dashboard) = Null"
    by (simp add: dashboard_def get_empty_store)
  have l: "\<And>key. looked_up sample_engine 0 key dashboard = dashboard"
    by (simp add: dashboard_def looked_up_empty_store)
  show ?thesis
    using f d m fallback_only_for_stats_and_downloads [OF f d, of 0 dashboard]
    by (simp add: n l)
qed



text \<open>
  The \<^verbatim>\<open>try\<close> of a load covers the fetch and what follows it, not the rendering of a
  cached value. The statistics of a payload without the counters are cached before their
  rendering throws, and on the next page load within 30 minutes their rendering throws
  outside the \<^verbatim>\<open>try\<close>.
\<close>

lemma renderRepoStats_undefined:
  "repoStats q = Obj [(''stars'', Undefined), (''forks'', Undefined),
                      (''watchers'', Undefined), (''openIssues'', Undefined)]
     \<Longrightarrow> renderRepoStats eng q = (Some TypeError, q)"
  by (simp add: renderRepoStats_def and_then_def update_with_def bind_def)

lemma repoStats_set: "repoStats (CacheManager_set now key v q) = repoStats q"
  by (simp add: CacheManager_set_def Utils_log_id split: sum.splits)

lemma storage_stats_fallback_rendered: "storage (stats_fallback_rendered q) = storage q"
  by (simp add: stats_fallback_rendered_def storage_updateEl)

lemma malformed_stats_cached:
  "storage (snd (loadRepoStats sample_engine 0 (Response 200 (Some (Obj [])) None)
                   (fresh_page empty_store Map.empty))) = poisoned_store"
proof -
  define stats0 where "stats0 = Obj [(''stars'', Undefined), (''forks'', Undefined),
                      (''watchers'', Undefined), (''openIssues'', Undefined)]"
  define q0 where "q0 = CacheManager_set 0 ''repo_stats'' stats0
                          ((fresh_page empty_store Map.empty)\<lparr>repoStats := stats0\<rparr>)"
  have n: "bind (fetch_json (Response 200 (Some (Obj [])) None)) repo_stats_of = Inr stats0"
    by (simp add: ok_def bind_def repo_stats_of_def stats0_def)
  have r: "renderRepoStats sample_engine q0 = (Some TypeError, q0)"
    by (rule renderRepoStats_undefined) (simp add: q0_def repoStats_set stats0_def)
  have "loadRepoStats sample_engine 0 (Response 200 (Some (Obj [])) None)
          (fresh_page empty_store Map.empty) = (None, stats_fallback_rendered q0)"
    using r by (simp add: loadRepoStats_def get_empty_store n try_catch_def q0_def Utils_log_id
          renderRepoStats_fallback del: fetch_json.simps)
  moreover have "storage q0 = poisoned_store"
    by (simp add: q0_def CacheManager_set_def JSON_stringify_def stats0_def fresh_page_def
          empty_store_def poisoned_store_def CACHE_PREFIX_def)
  ultimately show ?thesis by (simp add: storage_stats_fallback_rendered)
qed

lemma cached_stats_render_throws:
  "fst (loadRepoStats sample_engine 1000 resp (fresh_page poisoned_store Map.empty)) = Some TypeError"
  by (simp add: loadRepoStats_def CacheManager_get_def fresh_page_def poisoned_store_def
        CACHE_PREFIX_def CACHE_DURATION_def renderRepoStats_def and_then_def update_with_def bind_def)

section \<open>The sweep at page load\<close>

lemma loadLatestRelease_frame:
  assumes "k \<noteq> CACHE_PREFIX @ ''latest_release''"
  shows "getItem (storage (snd (loadLatestRelease eng now resp p))) k = getItem (storage p) k"
  using assms
  by (simp add: loadLatestRelease_def Let_def case_prod_beta CacheManager_get_page
        storage_renderLatestRelease getItem_looked_up_other storage_try_catch getItem_set_other
        Utils_log_id split: sum.splits)

lemma init_frame:
  assumes "k \<notin> set cache_keys"
  shows "getItem (storage (snd (init eng now rs p))) k = getItem (storage p) k"
  using assms
  by (simp add: init_def snd_also_run cache_keys_def loadRepoStats_frame loadTotalDownloads_frame
        loadCommits_frame loadContributors_frame loadLanguages_frame loadLatestRelease_frame)

lemma storage_GitHubAPI_new: "storage (GitHubAPI_new p) = storage p"
  by (simp add: GitHubAPI_new_def)

text \<open>
  Claim C8. An entry under a \<^verbatim>\<open>die_\<close> key whose timestamp is more than 24 hours behind
  the clock is gone after the sweep, and one whose timestamp is not is still there
  unchanged; the 30 minutes of \<^verbatim>\<open>get\<close> play no part. The handler of the page load
  sweeps: apart from the six keys that its loads write, the store it leaves is the swept
  store. Nothing that the script leaves waiting in \<^verbatim>\<open>setTimeout\<close> touches the store
  again.
\<close>

theorem sweep_retention:
  assumes st: "storage p = Storage es fl"
    and e: "map_of es k = Some (Json entry)"
    and pre: "prefix CACHE_PREFIX k"
    and ts: "get_prop entry ''timestamp'' = Inr (Num t)"
  shows "(now - t > RETENTION \<longrightarrow>
            getItem (storage (CacheManager_clearOld eng now p)) k = Inr None)
       \<and> (now - t \<le> RETENTION \<longrightarrow>
            getItem (storage (CacheManager_clearOld eng now p)) k = Inr (Some (Json entry)))
       \<and> (k \<notin> set cache_keys \<longrightarrow>
            getItem (storage (snd (on_DOMContentLoaded eng now rs p))) k
              = getItem (storage (CacheManager_clearOld eng now p)) k)
       \<and> storage (run_timers q) = storage q"
proof -
  have g: "getItem (storage p) k = Inr (Some (Json entry))" using st e by simp
  have k: "k \<in> set (map fst es)"
    using e by (metis map_of_eq_None_iff option.distinct(1) set_map)
  have c: "CacheManager_clearOld eng now p = fold (clearOld_key eng now) (map fst es) p"
    using st by (simp add: CacheManager_clearOld_def)
  have h: "k \<notin> set cache_keys \<longrightarrow>
            getItem (storage (snd (on_DOMContentLoaded eng now rs p))) k
              = getItem (storage (CacheManager_clearOld eng now p)) k"
    by (simp add: on_DOMContentLoaded_def init_frame storage_GitHubAPI_new)
  show ?thesis
    using fold_clearOld_old [OF k pre g ts] fold_clearOld_fresh [OF g ts] h
    by (simp add: c run_timers_def fold_swap_storage)
qed

theorem sweep_retention_witness:
  "(100000000::int) - 0 > RETENTION
   \<and> getItem (storage (CacheManager_clearOld sample_engine 100000000
                (fresh_page used_store Map.empty))) ''die_commits'' = Inr None
   \<and> (100000000::int) - 96400000 \<le> RETENTION
   \<and> (100000000::int) - 96400000 > CACHE_DURATION
   \<and> getItem (storage (CacheManager_clearOld sample_engine 100000000
                (fresh_page used_store Map.empty))) ''die_total_downloads''
        = Inr (Some (Json hour_old_entry))
   \<and> ''die_legacy'' \<notin> set cache_keys
   \<and> getItem (storage (snd (on_DOMContentLoaded sample_engine 100000000 broken_responses
                (fresh_page used_store Map.empty)))) ''die_legacy'' = Inr None"
  using sweep_retention [of "fresh_page used_store Map.empty" "entries used_store" False
          "''die_commits''" day_old_entry 0 100000000 sample_engine]
    sweep_retention [of "fresh_page used_store Map.empty" "entries used_store" False
          "''die_total_downloads''" hour_old_entry 96400000 100000000 sample_engine]
    sweep_retention [of "fresh_page used_store Map.empty" "entries used_store" False
          "''die_legacy''" day_old_entry 0 100000000 sample_engine broken_responses]
  by (simp add: fresh_page_def used_store_def day_old_entry_def hour_old_entry_def
        CACHE_PREFIX_def RETENTION_def CACHE_DURATION_def cache_keys_def)

end
